theory Spec2Isabelle
  imports Main "HOL-Library.Sublist" "HOL-Library.Multiset"
begin

section \<open>Python values\<close>

text \<open>
  A Python \<open>str\<close> is a sequence of Unicode code points, so it is modelled as a list of
  natural numbers; \<open>ustr\<close> turns an ASCII literal into such a list. The explanation lines of
  \<open>score_breakdown\<close> start with U+2212 (MINUS SIGN), code point 8722.
\<close>

type_synonym pystr = "nat list"

definition ustr :: "string \<Rightarrow> pystr" where
  "ustr s = map of_char s"

text \<open>
  Values decoded from JSON (\<open>r.json()\<close>): \<open>None\<close>, booleans, numbers (kept as their literal
  text: no function here computes with them), strings, lists and dicts (as the list of their
  items, keys distinct).
\<close>

datatype json =
    JNull
  | JBool bool
  | JNum pystr
  | JStr pystr
  | JArr "json list"
  | JObj "(pystr \<times> json) list"

text \<open>
  \<open>sub in s\<close> on strings: \<open>sub\<close> occurs in \<open>s\<close> as a contiguous run of characters.
\<close>

fun py_in :: "pystr \<Rightarrow> pystr \<Rightarrow> bool" where
  "py_in sub [] = (sub = [])"
| "py_in sub (c # cs) = (prefix sub (c # cs) \<or> py_in sub cs)"

datatype exc = TypeError | AttributeError | ValueError | KeyError | IndexError | RequestException

text \<open>
  \<open>str(x)\<close> is \<open>x\<close> itself for a string and \<open>repr(x)\<close> for every other JSON value. The
  builtin \<open>repr\<close> is a parameter of the model.
\<close>

definition py_str :: "(json \<Rightarrow> pystr) \<Rightarrow> json \<Rightarrow> pystr" where
  "py_str repr x = (case x of JStr s \<Rightarrow> s | _ \<Rightarrow> repr x)"

text \<open>\<open>v.get(key, default)\<close>: only a dict has the method.\<close>

definition py_get :: "json \<Rightarrow> pystr \<Rightarrow> json \<Rightarrow> exc + json" where
  "py_get v key dflt =
     (case v of
        JObj d \<Rightarrow> (case map_of d key of None \<Rightarrow> Inr dflt | Some x \<Rightarrow> Inr x)
      | _ \<Rightarrow> Inl AttributeError)"

text \<open>
  \<open>for v in x\<close>: a list yields its elements, a string its characters (strings of length
  one), a dict its keys; the other values are not iterable.
\<close>

definition py_iter :: "json \<Rightarrow> exc + json list" where
  "py_iter x =
     (case x of
        JArr xs \<Rightarrow> Inr xs
      | JStr s \<Rightarrow> Inr (map (\<lambda>c. JStr [c]) s)
      | JObj d \<Rightarrow> Inr (map (\<lambda>kv. JStr (fst kv)) d)
      | _ \<Rightarrow> Inl TypeError)"

definition py_len :: "json \<Rightarrow> exc + nat" where
  "py_len x =
     (case x of
        JArr xs \<Rightarrow> Inr (length xs)
      | JStr s \<Rightarrow> Inr (length s)
      | JObj d \<Rightarrow> Inr (length d)
      | _ \<Rightarrow> Inl TypeError)"

text \<open>
  Subscription \<open>x[key]\<close> with a string key and \<open>x[0]\<close>. A dict decoded from JSON has string
  keys only, so \<open>d[0]\<close> is a \<open>KeyError\<close>.
\<close>

definition py_item :: "json \<Rightarrow> pystr \<Rightarrow> exc + json" where
  "py_item x key =
     (case x of
        JObj d \<Rightarrow> (case map_of d key of None \<Rightarrow> Inl KeyError | Some y \<Rightarrow> Inr y)
      | _ \<Rightarrow> Inl TypeError)"

definition py_first :: "json \<Rightarrow> exc + json" where
  "py_first x =
     (case x of
        JArr [] \<Rightarrow> Inl IndexError
      | JArr (y # ys) \<Rightarrow> Inr y
      | JStr [] \<Rightarrow> Inl IndexError
      | JStr (c # cs) \<Rightarrow> Inr (JStr [c])
      | JObj d \<Rightarrow> Inl KeyError
      | _ \<Rightarrow> Inl TypeError)"

text \<open>
  What an HTTP call of \<open>requests\<close> does: it raises (no connection, timeout), or it returns a
  response with a status code and a body; \<open>r.json()\<close> raises on a body that is not JSON
  (\<open>None\<close> here) and decodes it otherwise.
\<close>

datatype http_result = Raised | Response int "json option"


section \<open>Manifest parser\<close>

text \<open>
  \<open>str.strip()\<close> removes the characters for which \<open>str.isspace()\<close> holds from both ends;
  \<open>str.splitlines()\<close> breaks at the line boundaries of Python, a carriage return followed by
  a line feed being one boundary, and yields no empty last line after a final boundary.
\<close>

definition is_space :: "nat \<Rightarrow> bool" where
  "is_space c \<longleftrightarrow>
     (9 \<le> c \<and> c \<le> 13) \<or> (28 \<le> c \<and> c \<le> 32) \<or> c = 133 \<or> c = 160 \<or> c = 5760
     \<or> (8192 \<le> c \<and> c \<le> 8202) \<or> c = 8232 \<or> c = 8233 \<or> c = 8239 \<or> c = 8287
     \<or> c = 12288"

definition is_linebreak :: "nat \<Rightarrow> bool" where
  "is_linebreak c \<longleftrightarrow>
     (10 \<le> c \<and> c \<le> 13) \<or> (28 \<le> c \<and> c \<le> 30) \<or> c = 133 \<or> c = 8232 \<or> c = 8233"

definition strip :: "pystr \<Rightarrow> pystr" where
  "strip s = rev (dropWhile is_space (rev (dropWhile is_space s)))"

fun splitlines_from :: "pystr \<Rightarrow> pystr \<Rightarrow> pystr list" where
  "splitlines_from cur [] = (if cur = [] then [] else [cur])"
| "splitlines_from cur [c] = (if is_linebreak c then [cur] else [cur @ [c]])"
| "splitlines_from cur (c # d # cs) =
     (if c = 13 \<and> d = 10 then cur # splitlines_from [] cs
      else if is_linebreak c then cur # splitlines_from [] (d # cs)
      else splitlines_from (cur @ [c]) (d # cs))"

definition splitlines :: "pystr \<Rightarrow> pystr list" where
  "splitlines s = splitlines_from [] s"

definition startswith :: "pystr \<Rightarrow> pystr \<Rightarrow> bool" where
  "startswith s p = prefix p s"

text \<open>
  \<open>s.split(sep, 1)\<close>: at most one split, at the leftmost occurrence of \<open>sep\<close>; the whole
  string alone when \<open>sep\<close> does not occur; \<open>ValueError\<close> on an empty separator.
\<close>

fun split_scan :: "pystr \<Rightarrow> pystr \<Rightarrow> pystr \<Rightarrow> pystr list" where
  "split_scan sep seen [] = [seen]"
| "split_scan sep seen (c # cs) =
     (if prefix sep (c # cs) then [seen, drop (length sep) (c # cs)]
      else split_scan sep (seen @ [c]) cs)"

definition py_split1 :: "pystr \<Rightarrow> pystr \<Rightarrow> exc + pystr list" where
  "py_split1 sep s = (if sep = [] then Inl ValueError else Inr (split_scan sep [] s))"

text \<open>A declaration is the pair \<open>(name, version)\<close>, the version \<open>None\<close> when absent.\<close>

type_synonym package_decl = "pystr \<times> pystr option"

definition SEPARATORS :: "pystr list" where
  "SEPARATORS = [ustr ''=='', ustr ''>='', ustr ''<='', ustr ''~='', ustr ''>'']"

text \<open>
  The inner \<open>for sep in [...]\<close> with its \<open>else\<close>: the first separator of the list that occurs
  in the line splits it; \<open>name, version = line.split(sep, 1)\<close> raises \<open>ValueError\<close> unless the
  split has two parts. Without any separator the line is the name.
\<close>

fun try_separators :: "pystr list \<Rightarrow> pystr \<Rightarrow> exc + package_decl" where
  "try_separators [] line = Inr (line, None)"
| "try_separators (sep # seps) line =
     (if py_in sep line then
        (case py_split1 sep line of
           Inl e \<Rightarrow> Inl e
         | Inr [name, version] \<Rightarrow> Inr (strip name, Some (strip version))
         | Inr _ \<Rightarrow> Inl ValueError)
      else try_separators seps line)"

text \<open>The outer loop over the lines, \<open>packages\<close> being the list built so far.\<close>

fun parse_lines :: "pystr list \<Rightarrow> package_decl list \<Rightarrow> exc + package_decl list" where
  "parse_lines [] packages = Inr packages"
| "parse_lines (l # ls) packages =
     (let line = strip l in
      if line = [] \<or> startswith line (ustr ''#'') then parse_lines ls packages
      else (case try_separators SEPARATORS line of
              Inl e \<Rightarrow> Inl e
            | Inr p \<Rightarrow> parse_lines ls (packages @ [p])))"

definition parse_requirements :: "pystr \<Rightarrow> exc + package_decl list" where
  "parse_requirements file_content = parse_lines (splitlines file_content) []"

text \<open>
  The lines that survive the filter of the loop: trimmed, non-empty, not starting with \<open>#\<close>.
  \<open>selected_separator\<close> is the first separator, in list order, that occurs in a line.
\<close>

definition surviving_lines :: "pystr \<Rightarrow> pystr list" where
  "surviving_lines file_content =
     filter (\<lambda>line. line \<noteq> [] \<and> \<not> startswith line (ustr ''#''))
       (map strip (splitlines file_content))"

definition selected_separator :: "pystr \<Rightarrow> pystr option" where
  "selected_separator line = find (\<lambda>sep. py_in sep line) SEPARATORS"

definition trimmed :: "pystr \<Rightarrow> bool" where
  "trimmed s \<longleftrightarrow> (s \<noteq> [] \<longrightarrow> \<not> is_space (hd s) \<and> \<not> is_space (last s))"


section \<open>Vulnerability lookup\<close>

definition OSV_API_URL :: pystr where
  "OSV_API_URL = ustr ''https://api.osv.dev/v1/query''"

text \<open>The request body; \<open>if version:\<close> holds for a version that is present and not empty.\<close>

definition osv_payload :: "pystr \<Rightarrow> pystr option \<Rightarrow> json" where
  "osv_payload package version =
     JObj ((ustr ''package'',
            JObj [(ustr ''name'', JStr package), (ustr ''ecosystem'', JStr (ustr ''PyPI''))])
           # (case version of
                None \<Rightarrow> []
              | Some v \<Rightarrow> if v = [] then [] else [(ustr ''version'', JStr v)]))"

text \<open>
  The body of the \<open>try\<close>: the status is tested first, and only a response with status 200
  is decoded. \<open>post\<close> is the vulnerability database behind \<open>requests.post\<close>.
\<close>

definition query_osv_try ::
  "(pystr \<Rightarrow> json \<Rightarrow> http_result) \<Rightarrow> pystr \<Rightarrow> pystr option \<Rightarrow> exc + json" where
  "query_osv_try post package version =
     (case post OSV_API_URL (osv_payload package version) of
        Raised \<Rightarrow> Inl RequestException
      | Response status_code body \<Rightarrow>
          if status_code = 200 then
            (case body of
               None \<Rightarrow> Inl ValueError
             | Some j \<Rightarrow> py_get j (ustr ''vulns'') (JArr []))
          else Inr (JArr []))"

text \<open>\<open>except Exception: return []\<close>.\<close>

definition query_osv ::
  "(pystr \<Rightarrow> json \<Rightarrow> http_result) \<Rightarrow> pystr \<Rightarrow> pystr option \<Rightarrow> json" where
  "query_osv post package version =
     (case query_osv_try post package version of Inl e \<Rightarrow> JArr [] | Inr v \<Rightarrow> v)"

text \<open>
  The ways in which the lookup fails: the request raises, the status is not 200, the body
  is not JSON, or the JSON is not an object. (An object without \<open>vulns\<close> is the answer
  for a package without known vulnerabilities.)
\<close>

definition osv_failure :: "http_result \<Rightarrow> bool" where
  "osv_failure r =
     (case r of
        Raised \<Rightarrow> True
      | Response status_code body \<Rightarrow>
          status_code \<noteq> 200
          \<or> (case body of None \<Rightarrow> True | Some (JObj d) \<Rightarrow> False | Some _ \<Rightarrow> True))"

text \<open>
  The dispatcher submits one task per declaration, task \<open>i\<close> for \<open>packages ! i\<close>, and
  \<open>as_completed\<close> yields the futures in the order in which they complete: \<open>order\<close>, a
  permutation of the task numbers. \<open>completed_futures\<close> lists, in that order, the key
  \<open>futures[future]\<close> and the value \<open>future.result()\<close> of each assignment that the loop makes;
  the loop stores them one after the other, and the function returns after the last one.
\<close>

definition completed_futures ::
  "(pystr \<Rightarrow> json \<Rightarrow> http_result) \<Rightarrow> package_decl list \<Rightarrow> nat list \<Rightarrow> (pystr \<times> json) list" where
  "completed_futures post packages order =
     map (\<lambda>i. (fst (packages ! i), query_osv post (fst (packages ! i)) (snd (packages ! i)))) order"

text \<open>\<open>results[futures[future]] = future.result()\<close>.\<close>

definition store_result :: "pystr \<times> json \<Rightarrow> (pystr \<rightharpoonup> json) \<Rightarrow> (pystr \<rightharpoonup> json)" where
  "store_result done results = results(fst done \<mapsto> snd done)"

definition fetch_all_vulnerabilities ::
  "(pystr \<Rightarrow> json \<Rightarrow> http_result) \<Rightarrow> package_decl list \<Rightarrow> nat list \<Rightarrow> (pystr \<rightharpoonup> json)" where
  "fetch_all_vulnerabilities post packages order =
     fold store_result (completed_futures post packages order) Map.empty"

definition completion_order :: "nat \<Rightarrow> nat list \<Rightarrow> bool" where
  "completion_order n order \<longleftrightarrow> mset order = mset [0..<n]"

section \<open>Package age\<close>

text \<open>
  \<open>datetime.fromisoformat\<close> rejects a text (\<open>ValueError\<close>) or reads a date and time without
  or with an offset; the model keeps the instant in microseconds since the epoch, and the
  parser itself is a parameter. \<open>now\<close> is \<open>datetime.now(timezone.utc)\<close>, in microseconds too.
  Subtracting a time without offset from one with offset is a \<open>TypeError\<close>; \<open>.days\<close> of a
  difference is its floor in days.
\<close>

datatype iso_time = Invalid | Naive int | Aware int

definition replace_Z :: "pystr \<Rightarrow> pystr" where
  "replace_Z s = concat (map (\<lambda>c. if c = 90 then ustr ''+00:00'' else [c]) s)"

definition pypi_url :: "pystr \<Rightarrow> pystr" where
  "pypi_url package = ustr ''https://pypi.org/pypi/'' @ package @ ustr ''/json''"

definition microseconds_per_day :: int where
  "microseconds_per_day = 86400000000"

definition fetch_pypi_age_try ::
  "(pystr \<Rightarrow> http_result) \<Rightarrow> (pystr \<Rightarrow> iso_time) \<Rightarrow> int \<Rightarrow> pystr \<Rightarrow> exc + int" where
  "fetch_pypi_age_try get fromisoformat now package =
     (case get (pypi_url package) of
        Raised \<Rightarrow> Inl RequestException
      | Response status_code body \<Rightarrow>
          (case body of
             None \<Rightarrow> Inl ValueError
           | Some data \<Rightarrow>
               (case py_item data (ustr ''urls'') of
                  Inl e \<Rightarrow> Inl e
                | Inr urls \<Rightarrow>
                    (case py_first urls of
                       Inl e \<Rightarrow> Inl e
                     | Inr artifact \<Rightarrow>
                         (case py_item artifact (ustr ''upload_time_iso_8601'') of
                            Inl e \<Rightarrow> Inl e
                          | Inr (JStr upload_time) \<Rightarrow>
                              (case fromisoformat (replace_Z upload_time) of
                                 Invalid \<Rightarrow> Inl ValueError
                               | Naive t \<Rightarrow> Inl TypeError
                               | Aware upload_date \<Rightarrow>
                                   Inr ((now - upload_date) div microseconds_per_day))
                          | Inr _ \<Rightarrow> Inl AttributeError)))))"

definition fetch_pypi_age ::
  "(pystr \<Rightarrow> http_result) \<Rightarrow> (pystr \<Rightarrow> iso_time) \<Rightarrow> int \<Rightarrow> pystr \<Rightarrow> int option" where
  "fetch_pypi_age get fromisoformat now package =
     (case fetch_pypi_age_try get fromisoformat now package of
        Inl e \<Rightarrow> None
      | Inr days \<Rightarrow> Some days)"

text \<open>
  The upload instants of all the artifacts that a registry answer lists (those that have a
  readable one), for comparison with the one the function uses.
\<close>

definition artifact_instant :: "(pystr \<Rightarrow> iso_time) \<Rightarrow> json \<Rightarrow> int option" where
  "artifact_instant fromisoformat artifact =
     (case py_item artifact (ustr ''upload_time_iso_8601'') of
        Inr (JStr t) \<Rightarrow> (case fromisoformat (replace_Z t) of Aware u \<Rightarrow> Some u | _ \<Rightarrow> None)
      | _ \<Rightarrow> None)"

definition upload_instants :: "(pystr \<Rightarrow> iso_time) \<Rightarrow> json \<Rightarrow> int list" where
  "upload_instants fromisoformat data =
     (case py_item data (ustr ''urls'') of
        Inr (JArr artifacts) \<Rightarrow> List.map_filter (artifact_instant fromisoformat) artifacts
      | _ \<Rightarrow> [])"

section \<open>Typosquatting\<close>

definition TOP_PACKAGES :: "pystr list" where
  "TOP_PACKAGES = map ustr
     [''requests'', ''flask'', ''django'', ''numpy'', ''pandas'', ''scipy'',
      ''matplotlib'', ''seaborn'', ''sqlalchemy'', ''fastapi'', ''pytest'',
      ''beautifulsoup4'', ''pillow'', ''opencv-python'', ''tensorflow'',
      ''torch'', ''scikit-learn'', ''celery'', ''redis'', ''uvicorn'']"

text \<open>
  The loop of \<open>check_typosquatting\<close> over the popular names, with \<open>best_score\<close> and
  \<open>closest\<close> as its state. The scorer \<open>fuzz.ratio\<close> of the library \<open>thefuzz\<close> and
  \<open>str.lower\<close> are parameters.
\<close>

fun closest_loop ::
  "(pystr \<Rightarrow> pystr \<Rightarrow> int) \<Rightarrow> (pystr \<Rightarrow> pystr) \<Rightarrow> pystr \<Rightarrow> pystr list \<Rightarrow>
   int \<times> pystr option \<Rightarrow> int \<times> pystr option" where
  "closest_loop ratio lower package [] (best_score, closest) = (best_score, closest)"
| "closest_loop ratio lower package (popular # rest) (best_score, closest) =
     (let score = ratio (lower package) (lower popular) in
      if score > best_score then closest_loop ratio lower package rest (score, Some popular)
      else closest_loop ratio lower package rest (best_score, closest))"

definition check_typosquatting ::
  "(pystr \<Rightarrow> pystr \<Rightarrow> int) \<Rightarrow> (pystr \<Rightarrow> pystr) \<Rightarrow> pystr \<Rightarrow> int \<times> pystr option" where
  "check_typosquatting ratio lower package =
     closest_loop ratio lower package TOP_PACKAGES (0, None)"


section \<open>Trust score\<close>

text \<open>\<open>"CRITICAL" in str(v.get("severity", ""))\<close>.\<close>

definition is_critical :: "(json \<Rightarrow> pystr) \<Rightarrow> json \<Rightarrow> exc + bool" where
  "is_critical repr v =
     (case py_get v (ustr ''severity'') (JStr []) of
        Inl e \<Rightarrow> Inl e
      | Inr x \<Rightarrow> Inr (py_in (ustr ''CRITICAL'') (py_str repr x)))"

text \<open>\<open>any(... for v in vulns)\<close> stops at the first true element, or at the first raise.\<close>

fun any_critical :: "(json \<Rightarrow> pystr) \<Rightarrow> json list \<Rightarrow> exc + bool" where
  "any_critical repr [] = Inr False"
| "any_critical repr (v # vs) =
     (case is_critical repr v of
        Inl e \<Rightarrow> Inl e
      | Inr True \<Rightarrow> Inr True
      | Inr False \<Rightarrow> any_critical repr vs)"

definition critical_found :: "(json \<Rightarrow> pystr) \<Rightarrow> json \<Rightarrow> exc + bool" where
  "critical_found repr vulns =
     (case py_iter vulns of Inl e \<Rightarrow> Inl e | Inr vs \<Rightarrow> any_critical repr vs)"

definition calculate_trust_score :: "(json \<Rightarrow> pystr) \<Rightarrow> json \<Rightarrow> int \<Rightarrow> bool \<Rightarrow> exc + int" where
  "calculate_trust_score repr vulns similarity is_new =
     (case critical_found repr vulns of
        Inl e \<Rightarrow> Inl e
      | Inr crit \<Rightarrow>
          (let score0 = 100;
               score1 = (if crit then score0 - 20 else score0);
               score2 = (if similarity \<ge> 90 then score1 - 50 else score1);
               score3 = (if is_new then score2 - 10 else score2)
           in Inr (max score3 0)))"

definition reason_critical :: pystr where
  "reason_critical = 8722 # ustr ''20: Critical vulnerabilities detected''"

definition reason_typo :: pystr where
  "reason_typo = 8722 # ustr ''50: Looks like a typo of a popular package''"

definition reason_new :: pystr where
  "reason_new = 8722 # ustr ''10: Very new package (<30 days)''"

definition no_risk :: pystr where
  "no_risk = ustr ''No risk factors detected''"

definition score_breakdown :: "(json \<Rightarrow> pystr) \<Rightarrow> json \<Rightarrow> int \<Rightarrow> bool \<Rightarrow> exc + pystr list" where
  "score_breakdown repr vulns similarity is_new =
     (case critical_found repr vulns of
        Inl e \<Rightarrow> Inl e
      | Inr crit \<Rightarrow>
          (let reasons0 = [];
               reasons1 = (if crit then reasons0 @ [reason_critical] else reasons0);
               reasons2 = (if similarity \<ge> 90 then reasons1 @ [reason_typo] else reasons1);
               reasons3 = (if is_new then reasons2 @ [reason_new] else reasons2)
           in Inr (if reasons3 = [] then [no_risk] else reasons3)))"

text \<open>
  The vulnerability lists of the data model: a list of records (dicts). \<open>severity_text\<close> is
  the text in which the score looks for \<open>CRITICAL\<close>: the \<open>str\<close> of the record's
  \<open>severity\<close> field, the empty string when the record has none.
\<close>

definition vuln_list :: "(pystr \<times> json) list list \<Rightarrow> json" where
  "vuln_list ds = JArr (map JObj ds)"

definition severity_text :: "(json \<Rightarrow> pystr) \<Rightarrow> (pystr \<times> json) list \<Rightarrow> pystr" where
  "severity_text repr d =
     (case map_of d (ustr ''severity'') of None \<Rightarrow> [] | Some x \<Rightarrow> py_str repr x)"

text \<open>The deduction that an explanation line announces (the sentinel line announces none).\<close>

definition line_deduction :: "pystr \<Rightarrow> int" where
  "line_deduction l =
     (if l = reason_critical then 20
      else if l = reason_typo then 50
      else if l = reason_new then 10
      else 0)"


section \<open>Risk records\<close>

text \<open>
  One row per declaration. \<open>ver or "Any"\<close> replaces a version that is absent or empty.
  The column with the HTML bar is a rendering of the trust score and is left out.
\<close>

record risk_row =
  row_package :: pystr
  row_version :: pystr
  row_vulnerabilities :: nat
  row_similarity :: int
  row_closest :: "pystr option"
  row_age :: "int option"
  row_trust_score :: int
  row_explanation :: pystr

fun py_join :: "pystr \<Rightarrow> pystr list \<Rightarrow> pystr" where
  "py_join sep [] = []"
| "py_join sep [x] = x"
| "py_join sep (x # y # ys) = x @ sep @ py_join sep (y # ys)"

text \<open>
  The loop \<open>for pkg, ver in packages\<close>, \<open>rows\<close> being the list built so far; \<open>vuln_data\<close> is
  the mapping of the dispatcher and \<open>age_of\<close> the age lookup of this run.
\<close>

fun build_rows ::
  "(json \<Rightarrow> pystr) \<Rightarrow> (pystr \<Rightarrow> pystr \<Rightarrow> int) \<Rightarrow> (pystr \<Rightarrow> pystr) \<Rightarrow> (pystr \<Rightarrow> int option) \<Rightarrow>
   (pystr \<rightharpoonup> json) \<Rightarrow> package_decl list \<Rightarrow> risk_row list \<Rightarrow> exc + risk_row list" where
  "build_rows repr ratio lower age_of vuln_data [] rows = Inr rows"
| "build_rows repr ratio lower age_of vuln_data ((pkg, ver) # rest) rows =
     (let vulns = (case vuln_data pkg of None \<Rightarrow> JArr [] | Some v \<Rightarrow> v);
          age = age_of pkg;
          (similarity, target) = check_typosquatting ratio lower pkg;
          is_new = (case age of None \<Rightarrow> False | Some a \<Rightarrow> a < 30)
      in case calculate_trust_score repr vulns similarity is_new of
           Inl e \<Rightarrow> Inl e
         | Inr score \<Rightarrow>
            (case py_len vulns of
               Inl e \<Rightarrow> Inl e
             | Inr n \<Rightarrow>
                (case score_breakdown repr vulns similarity is_new of
                   Inl e \<Rightarrow> Inl e
                 | Inr reasons \<Rightarrow>
                     build_rows repr ratio lower age_of vuln_data rest
                       (rows @
                        [\<lparr>row_package = pkg,
                          row_version = (case ver of
                                           None \<Rightarrow> ustr ''Any''
                                         | Some v \<Rightarrow> if v = [] then ustr ''Any'' else v),
                          row_vulnerabilities = n,
                          row_similarity = similarity,
                          row_closest = target,
                          row_age = age,
                          row_trust_score = score,
                          row_explanation = py_join (ustr ''<br>'') reasons\<rparr>]))))"

text \<open>Everything outside the program that a run depends on.\<close>

record collaborators =
  osv_post :: "pystr \<Rightarrow> json \<Rightarrow> http_result"
  pypi_get :: "pystr \<Rightarrow> http_result"
  iso_parser :: "pystr \<Rightarrow> iso_time"
  utc_now :: int
  fuzz_ratio :: "pystr \<Rightarrow> pystr \<Rightarrow> int"
  str_lower :: "pystr \<Rightarrow> pystr"
  py_repr :: "json \<Rightarrow> pystr"
  futures_order :: "nat \<Rightarrow> nat list"

text \<open>The run on an uploaded manifest: parse, fetch all vulnerabilities, build the rows.\<close>

definition risk_records :: "collaborators \<Rightarrow> pystr \<Rightarrow> exc + risk_row list" where
  "risk_records w file_content =
     (case parse_requirements file_content of
        Inl e \<Rightarrow> Inl e
      | Inr packages \<Rightarrow>
          (let vuln_data =
                 fetch_all_vulnerabilities (osv_post w) packages (futures_order w (length packages))
           in build_rows (py_repr w) (fuzz_ratio w) (str_lower w)
                (fetch_pypi_age (pypi_get w) (iso_parser w) (utc_now w))
                vuln_data packages []))"

text \<open>
  What the loop computes for one declaration: \<open>row_matches\<close> relates a declaration to the
  row built for it.
\<close>

definition row_matches ::
  "(json \<Rightarrow> pystr) \<Rightarrow> (pystr \<Rightarrow> pystr \<Rightarrow> int) \<Rightarrow> (pystr \<Rightarrow> pystr) \<Rightarrow> (pystr \<Rightarrow> int option) \<Rightarrow>
   (pystr \<rightharpoonup> json) \<Rightarrow> package_decl \<Rightarrow> risk_row \<Rightarrow> bool" where
  "row_matches repr ratio lower age_of vuln_data p r \<longleftrightarrow>
     (let vulns = (case vuln_data (fst p) of None \<Rightarrow> JArr [] | Some v \<Rightarrow> v);
          is_new = (case age_of (fst p) of None \<Rightarrow> False | Some a \<Rightarrow> a < 30)
      in row_package r = fst p
         \<and> py_len vulns = Inr (row_vulnerabilities r)
         \<and> check_typosquatting ratio lower (fst p) = (row_similarity r, row_closest r)
         \<and> row_age r = age_of (fst p)
         \<and> calculate_trust_score repr vulns (row_similarity r) is_new = Inr (row_trust_score r)
         \<and> (\<exists>reasons. score_breakdown repr vulns (row_similarity r) is_new = Inr reasons
               \<and> row_explanation r = py_join (ustr ''<br>'') reasons))"

section \<open>Sample collaborators\<close>

text \<open>
  Concrete collaborators for evaluating the functions on examples; the theorems hold for all
  collaborators. \<open>indel_ratio\<close> is the scorer in the form the library computes it on
  non-empty strings: 200 times the length of a longest common subsequence, divided by the sum
  of the lengths, rounded to the nearest integer (a tie to the even one). \<open>ascii_lower\<close> is
  \<open>str.lower\<close> on ASCII text.
\<close>

fun lcs_length :: "pystr \<Rightarrow> pystr \<Rightarrow> nat" where
  "lcs_length [] ys = 0"
| "lcs_length (x # xs) [] = 0"
| "lcs_length (x # xs) (y # ys) =
     (if x = y then Suc (lcs_length xs ys)
      else max (lcs_length xs (y # ys)) (lcs_length (x # xs) ys))"

definition indel_ratio :: "pystr \<Rightarrow> pystr \<Rightarrow> int" where
  "indel_ratio a b =
     (let n = length a + length b; q = 200 * lcs_length a b in
      if n = 0 then 100
      else if 2 * (q mod n) < n then int (q div n)
      else if 2 * (q mod n) > n then int (q div n) + 1
      else if even (q div n) then int (q div n) else int (q div n) + 1)"

definition ascii_lower :: "pystr \<Rightarrow> pystr" where
  "ascii_lower s = map (\<lambda>c. if 65 \<le> c \<and> c \<le> 90 then c + 32 else c) s"

text \<open>
  A registry that knows one package, with two artifacts, the first uploaded ten days after
  the second, and a parser for the two timestamps (midnight of 11 and of 1 January 2024, in
  microseconds since the epoch).
\<close>

definition sample_fromisoformat :: "pystr \<Rightarrow> iso_time" where
  "sample_fromisoformat s =
     (if s = ustr ''2024-01-11T00:00:00+00:00'' then Aware 1704931200000000
      else if s = ustr ''2024-01-01T00:00:00+00:00'' then Aware 1704067200000000
      else Invalid)"

definition sample_registry :: "pystr \<Rightarrow> http_result" where
  "sample_registry url =
     (if url = pypi_url (ustr ''demo'') then
        Response 200 (Some (JObj [(ustr ''urls'',
          JArr [JObj [(ustr ''upload_time_iso_8601'', JStr (ustr ''2024-01-11T00:00:00Z''))],
                JObj [(ustr ''upload_time_iso_8601'', JStr (ustr ''2024-01-01T00:00:00Z''))]])]))
      else Response 404 (Some (JObj [(ustr ''message'', JStr (ustr ''Not Found''))])))"

text \<open>
  Vulnerability databases: one that cannot be reached, and one that answers every query
  with status 200 and the body \<open>{"vulns": null}\<close>.
\<close>

definition osv_unreachable :: "pystr \<Rightarrow> json \<Rightarrow> http_result" where
  "osv_unreachable url payload = Raised"

definition osv_null_vulns :: "pystr \<Rightarrow> json \<Rightarrow> http_result" where
  "osv_null_vulns url payload = Response 200 (Some (JObj [(ustr ''vulns'', JNull)]))"


text \<open>
  A complete set of collaborators around a given vulnerability database; the futures
  complete in the order of submission, and \<open>repr\<close> is not needed (no severity on the samples
  is anything but a string).
\<close>

definition sample_collaborators :: "(pystr \<Rightarrow> json \<Rightarrow> http_result) \<Rightarrow> collaborators" where
  "sample_collaborators post =
     \<lparr>osv_post = post, pypi_get = sample_registry, iso_parser = sample_fromisoformat,
      utc_now = 1705795200000000, fuzz_ratio = indel_ratio, str_lower = ascii_lower,
      py_repr = (\<lambda>x. []), futures_order = (\<lambda>n. [0..<n])\<rparr>"


section \<open>Properties of the trust score\<close>

lemma py_in_sublist: "py_in sub s = sublist sub s"
  by (induction s) (simp_all add: sublist_Cons_right)

lemma py_in_iff: "py_in sub s \<longleftrightarrow> (\<exists>pre post. s = pre @ sub @ post)"
  by (simp add: py_in_sublist sublist_def)

lemma is_critical_record:
  "is_critical repr (JObj d) = Inr (py_in (ustr ''CRITICAL'') (severity_text repr d))"
  by (simp add: is_critical_def py_get_def severity_text_def py_str_def split: option.split)

lemma any_critical_records:
  "any_critical repr (map JObj ds) =
     Inr (\<exists>d \<in> set ds. py_in (ustr ''CRITICAL'') (severity_text repr d))"
  by (induction ds) (simp_all add: is_critical_record split: bool.split)

lemma critical_found_vuln_list:
  "critical_found repr (vuln_list ds) =
     Inr (\<exists>d \<in> set ds. py_in (ustr ''CRITICAL'') (severity_text repr d))"
  by (simp add: critical_found_def vuln_list_def py_iter_def any_critical_records)

text \<open>
  C10. On every vulnerability list, similarity score and is-new flag the score is at least
  20: it is 100 minus the deductions without any flooring, one of the eight values
  100, 90, 80, 70, 50, 40, 30, 20, so the floor at 0 never decides and no score lies strictly
  between 0 and 20.
\<close>

theorem trust_score_at_least_20:
  "\<exists>c. calculate_trust_score repr (vuln_list ds) similarity is_new = Inr c
       \<and> 20 \<le> c
       \<and> c = 100 - (if (\<exists>d \<in> set ds. py_in (ustr ''CRITICAL'') (severity_text repr d)) then 20 else 0)
                 - (if similarity \<ge> 90 then 50 else 0)
                 - (if is_new then 10 else 0)
       \<and> c \<in> {100, 90, 80, 70, 50, 40, 30, 20}
       \<and> \<not> (0 < c \<and> c < 20)"
  by (simp add: calculate_trust_score_def critical_found_vuln_list Let_def)

theorem trust_score_at_least_20_witness:
  "calculate_trust_score (\<lambda>x. [])
     (vuln_list [[(ustr ''severity'', JStr (ustr ''CRITICAL: remote code execution''))]]) 95 True
   = Inr 20"
  using trust_score_at_least_20
    [of "\<lambda>x. []" "[[(ustr ''severity'', JStr (ustr ''CRITICAL: remote code execution''))]]" 95 True]
  by (simp add: severity_text_def py_str_def ustr_def)

lemma reasons_distinct:
  "reason_critical \<noteq> reason_typo" "reason_critical \<noteq> reason_new" "reason_typo \<noteq> reason_new"
  "reason_typo \<noteq> reason_critical" "reason_new \<noteq> reason_critical" "reason_new \<noteq> reason_typo"
  "reason_critical \<noteq> no_risk" "reason_typo \<noteq> no_risk" "reason_new \<noteq> no_risk"
  by (simp_all add: reason_critical_def reason_typo_def reason_new_def no_risk_def ustr_def)

text \<open>
  C1. On every vulnerability list, similarity score and is-new flag, the score is
  \<open>max 0 (100 - deductions)\<close>, where the deductions are 20 when the severity text of some
  record contains \<open>CRITICAL\<close> (some text before, the eight capital letters, some text after),
  50 when the similarity is at least 90, and 10 when is-new holds; the score lies between 0
  and 100.
\<close>

theorem calculate_trust_score_spec:
  "calculate_trust_score repr (vuln_list ds) similarity is_new =
     Inr (max 0 (100 -
       ((if (\<exists>d \<in> set ds. \<exists>pre post. severity_text repr d = pre @ ustr ''CRITICAL'' @ post)
         then 20 else 0)
        + (if similarity \<ge> 90 then 50 else 0)
        + (if is_new then 10 else 0))))
   \<and> (\<exists>c. calculate_trust_score repr (vuln_list ds) similarity is_new = Inr c \<and> 0 \<le> c \<and> c \<le> 100)"
  by (simp add: calculate_trust_score_def critical_found_vuln_list Let_def py_in_iff)

theorem calculate_trust_score_spec_witness:
  "calculate_trust_score (\<lambda>x. [])
     (vuln_list [[(ustr ''id'', JStr (ustr ''GHSA-1''))],
                 [(ustr ''severity'', JStr (ustr ''xCRITICALy''))]]) 10 False
   = Inr 80"
proof -
  have "\<exists>d \<in> set [[(ustr ''id'', JStr (ustr ''GHSA-1''))],
                    [(ustr ''severity'', JStr (ustr ''xCRITICALy''))]].
          \<exists>pre post. severity_text (\<lambda>x. []) d = pre @ ustr ''CRITICAL'' @ post"
    unfolding py_in_iff [symmetric]
    by (simp add: severity_text_def py_str_def ustr_def)
  then show ?thesis
    using calculate_trust_score_spec
      [of "\<lambda>x. []" "[[(ustr ''id'', JStr (ustr ''GHSA-1''))],
                        [(ustr ''severity'', JStr (ustr ''xCRITICALy''))]]" 10 False]
    by simp
qed

text \<open>
  C2. The explanation agrees with the score on every vulnerability list, similarity score and
  is-new flag: the lines other than the sentinel are exactly the lines of the conditions that
  hold, in the order vulnerability, similarity, age; the score is 100 minus the deductions
  these lines announce; there are as many such lines as conditions that hold; and when no
  condition holds the explanation is the sentinel line alone, otherwise it has no sentinel.
\<close>

theorem score_breakdown_consistent:
  "\<exists>c ls. calculate_trust_score repr (vuln_list ds) similarity is_new = Inr c
     \<and> score_breakdown repr (vuln_list ds) similarity is_new = Inr ls
     \<and> filter (\<lambda>l. l \<noteq> no_risk) ls =
         (if (\<exists>d \<in> set ds. py_in (ustr ''CRITICAL'') (severity_text repr d))
          then [reason_critical] else [])
         @ (if similarity \<ge> 90 then [reason_typo] else [])
         @ (if is_new then [reason_new] else [])
     \<and> c = 100 - sum_list (map line_deduction (filter (\<lambda>l. l \<noteq> no_risk) ls))
     \<and> length (filter (\<lambda>l. l \<noteq> no_risk) ls) =
         (if (\<exists>d \<in> set ds. py_in (ustr ''CRITICAL'') (severity_text repr d)) then 1 else 0)
         + (if similarity \<ge> 90 then 1 else 0)
         + (if is_new then 1 else 0)
     \<and> (if \<not> (\<exists>d \<in> set ds. py_in (ustr ''CRITICAL'') (severity_text repr d))
            \<and> \<not> similarity \<ge> 90 \<and> \<not> is_new
         then ls = [no_risk]
         else ls = filter (\<lambda>l. l \<noteq> no_risk) ls)"
  by (simp add: calculate_trust_score_def score_breakdown_def critical_found_vuln_list Let_def
      line_deduction_def reasons_distinct)

theorem score_breakdown_consistent_witness:
  "calculate_trust_score (\<lambda>x. [])
     (vuln_list [[(ustr ''severity'', JStr (ustr ''CRITICAL''))]]) 95 False = Inr 30
   \<and> score_breakdown (\<lambda>x. [])
     (vuln_list [[(ustr ''severity'', JStr (ustr ''CRITICAL''))]]) 95 False
     = Inr [reason_critical, reason_typo]"
  using score_breakdown_consistent
    [of "\<lambda>x. []" "[[(ustr ''severity'', JStr (ustr ''CRITICAL''))]]" 95 False]
  by (auto simp add: severity_text_def py_str_def ustr_def reasons_distinct line_deduction_def
      split: if_splits)

section \<open>Properties of the parser\<close>

lemma strip_prefix_decomp: "\<exists>v. dropWhile is_space s = strip s @ v"
proof -
  have "rev (dropWhile is_space s) =
          takeWhile is_space (rev (dropWhile is_space s)) @ dropWhile is_space (rev (dropWhile is_space s))"
    by simp
  then have "dropWhile is_space s = strip s @ rev (takeWhile is_space (rev (dropWhile is_space s)))"
    unfolding strip_def by (metis rev_append rev_rev_ident)
  then show ?thesis by blast
qed

lemma hd_strip: "strip s \<noteq> [] \<Longrightarrow> \<not> is_space (hd (strip s))"
proof -
  assume ne: "strip s \<noteq> []"
  obtain v where v: "dropWhile is_space s = strip s @ v" using strip_prefix_decomp by blast
  then have "dropWhile is_space s \<noteq> []" using ne by simp
  then have "\<not> is_space (hd (dropWhile is_space s))" by (rule hd_dropWhile)
  then show ?thesis using v ne by simp
qed

lemma last_strip: "strip s \<noteq> [] \<Longrightarrow> \<not> is_space (last (strip s))"
proof -
  assume ne: "strip s \<noteq> []"
  then have "dropWhile is_space (rev (dropWhile is_space s)) \<noteq> []" by (simp add: strip_def)
  then have "\<not> is_space (hd (dropWhile is_space (rev (dropWhile is_space s))))" by (rule hd_dropWhile)
  then show ?thesis using ne by (simp add: strip_def last_rev)
qed

lemma trimmed_strip: "trimmed (strip s)"
  by (simp add: trimmed_def hd_strip last_strip)

lemma strip_trimmed: "trimmed s \<Longrightarrow> strip s = s"
proof (cases "s = []")
  case True then show ?thesis by (simp add: strip_def)
next
  case False
  assume "trimmed s"
  then have h: "\<not> is_space (hd s)" and l: "\<not> is_space (last s)" using False by (simp_all add: trimmed_def)
  have 1: "dropWhile is_space s = s" using h False by (cases s) simp_all
  have "rev s \<noteq> []" using False by simp
  moreover have "hd (rev s) = last s" using False by (simp add: hd_rev)
  ultimately have "\<not> is_space (hd (rev s))" using l by simp
  then have 2: "dropWhile is_space (rev s) = rev s" using \<open>rev s \<noteq> []\<close> by (cases "rev s") simp_all
  show ?thesis by (simp add: strip_def 1 2)
qed

lemma strip_strip: "strip (strip s) = strip s"
  by (simp add: strip_trimmed trimmed_strip)

lemma strip_nonempty_prefix:
  assumes "a \<noteq> []" "\<not> is_space (hd a)"
  shows "strip a \<noteq> []"
proof -
  have 1: "dropWhile is_space a = a" using assms by (cases a) simp_all
  have "hd a \<in> set (rev a)" using assms(1) by simp
  then have "dropWhile is_space (rev a) \<noteq> []" using assms(2) by (auto simp: dropWhile_eq_Nil_conv)
  then show ?thesis by (simp add: strip_def 1)
qed

lemma leftmost_not_prefix:
  assumes "sep \<noteq> []" "a \<noteq> []" "\<not> py_in sep (a @ butlast sep)"
  shows "\<not> prefix sep (a @ sep @ b)"
proof
  assume p: "prefix sep (a @ sep @ b)"
  have e: "a @ sep @ b = (a @ butlast sep) @ (last sep # b)"
    using assms(1) by simp
  obtain c a' where a: "a = c # a'" using assms(2) by (cases a) simp_all
  have "length sep \<le> length (a @ butlast sep)" unfolding a by simp
  then have "prefix sep (a @ butlast sep)"
    using p unfolding e by (metis prefix_length_prefix prefix_order.dual_order.refl prefix_append append_prefixD)
  then have "sublist sep (a @ butlast sep)" by (rule prefix_imp_sublist)
  then show False using assms(3) by (simp add: py_in_sublist)
qed

lemma split_scan_leftmost:
  "sep \<noteq> [] \<Longrightarrow> \<not> py_in sep (a @ butlast sep) \<Longrightarrow>
   split_scan sep seen (a @ sep @ b) = [seen @ a, b]"
proof (induction a arbitrary: seen)
  case Nil
  then show ?case by (cases sep) simp_all
next
  case (Cons c a)
  have later: "\<not> py_in sep (a @ butlast sep)"
    using Cons.prems(2) by simp
  have "\<not> prefix sep ((c # a) @ sep @ b)"
    using leftmost_not_prefix [OF Cons.prems(1) _ Cons.prems(2)] by simp
  then show ?case
    using Cons.IH [OF Cons.prems(1) later, of "seen @ [c]"] by simp
qed

lemma split_scan_found:
  "sep \<noteq> [] \<Longrightarrow> py_in sep line \<Longrightarrow>
     \<exists>a b. line = a @ sep @ b \<and> \<not> py_in sep (a @ butlast sep)"
proof (induction line)
  case Nil
  then show ?case by simp
next
  case (Cons c cs)
  show ?case
  proof (cases "prefix sep (c # cs)")
    case True
    then obtain b where b: "c # cs = sep @ b" by (auto simp: prefix_def)
    have "\<not> sublist sep (butlast sep)"
    proof
      assume "sublist sep (butlast sep)"
      then have "length sep \<le> length (butlast sep)" by (rule sublist_length_le)
      moreover have "length (butlast sep) < length sep"
        using Cons.prems(1) by (cases sep rule: rev_cases) simp_all
      ultimately show False by linarith
    qed
    then have "c # cs = [] @ sep @ b \<and> \<not> py_in sep ([] @ butlast sep)" using b by (simp add: py_in_sublist)
    then show ?thesis by blast
  next
    case False
    then have "py_in sep cs" using Cons.prems(2) by simp
    then obtain a b where ab: "cs = a @ sep @ b" "\<not> py_in sep (a @ butlast sep)"
      using Cons.IH [OF Cons.prems(1)] by blast
    have "\<not> prefix sep (c # a @ butlast sep)"
    proof
      assume p: "prefix sep (c # a @ butlast sep)"
      have "c # cs = (c # a @ butlast sep) @ (last sep # b)" using ab(1) Cons.prems(1) by simp
      then have "prefix (c # a @ butlast sep) (c # cs)" by (metis prefixI)
      then show False using p False by (meson prefix_order.trans)
    qed
    then have "c # cs = (c # a) @ sep @ b \<and> \<not> py_in sep ((c # a) @ butlast sep)"
      using ab by simp
    then show ?thesis by blast
  qed
qed


lemma try_separators_none:
  "find (\<lambda>sep. py_in sep line) seps = None \<Longrightarrow> try_separators seps line = Inr (line, None)"
  by (induction seps) (simp_all split: if_splits)

lemma try_separators_some:
  "find (\<lambda>sep. py_in sep line) seps = Some sep \<Longrightarrow> sep \<noteq> [] \<Longrightarrow> line = a @ sep @ b \<Longrightarrow>
   \<not> py_in sep (a @ butlast sep) \<Longrightarrow>
   try_separators seps line = Inr (strip a, Some (strip b))"
proof (induction seps)
  case Nil
  then show ?case by simp
next
  case (Cons x xs)
  show ?case
  proof (cases "py_in x line")
    case True
    then have "x = sep" using Cons.prems(1) by simp
    moreover have "split_scan sep [] line = [a, b]"
      using split_scan_leftmost [OF Cons.prems(2) Cons.prems(4), of "[]" b] Cons.prems(3) by simp
    ultimately show ?thesis using True Cons.prems(2) by (simp add: py_split1_def)
  next
    case False
    then show ?thesis using Cons by simp
  qed
qed

lemma separators_nonempty: "sep \<in> set SEPARATORS \<Longrightarrow> sep \<noteq> []"
  by (auto simp add: SEPARATORS_def ustr_def)

lemma selected_separator_cases:
  obtains (none) "selected_separator line = None" "try_separators SEPARATORS line = Inr (line, None)"
  | (some) sep a b where "selected_separator line = Some sep" "sep \<in> set SEPARATORS" "sep \<noteq> []"
      "line = a @ sep @ b" "\<not> py_in sep (a @ butlast sep)"
      "try_separators SEPARATORS line = Inr (strip a, Some (strip b))"
proof (cases "selected_separator line")
  case None
  then show ?thesis using none try_separators_none by (simp add: selected_separator_def)
next
  case (Some sep)
  then have f: "find (\<lambda>sep. py_in sep line) SEPARATORS = Some sep" by (simp add: selected_separator_def)
  then have mem: "sep \<in> set SEPARATORS" and occ: "py_in sep line"
    by (auto simp: find_Some_iff)
  have ne: "sep \<noteq> []" using mem by (rule separators_nonempty)
  obtain a b where ab: "line = a @ sep @ b" "\<not> py_in sep (a @ butlast sep)"
    using split_scan_found [OF ne occ] by blast
  show ?thesis
    using some [OF Some mem ne ab] try_separators_some [OF f ne ab] by simp
qed

lemma try_separators_total: "\<exists>p. try_separators SEPARATORS line = Inr p"
  by (cases line rule: selected_separator_cases) simp_all

lemma parse_lines_eq:
  "\<exists>ds. parse_lines ls packages = Inr (packages @ ds)
     \<and> map Inr ds = map (try_separators SEPARATORS)
         (filter (\<lambda>line. line \<noteq> [] \<and> \<not> startswith line (ustr ''#'')) (map strip ls))"
proof (induction ls arbitrary: packages)
  case Nil
  then show ?case by simp
next
  case (Cons l ls)
  show ?case
  proof (cases "strip l = [] \<or> startswith (strip l) (ustr ''#'')")
    case True
    then show ?thesis using Cons.IH [of packages] by auto
  next
    case False
    obtain p where p: "try_separators SEPARATORS (strip l) = Inr p"
      using try_separators_total by blast
    obtain ds where ds: "parse_lines ls (packages @ [p]) = Inr ((packages @ [p]) @ ds)"
      "map Inr ds = map (try_separators SEPARATORS)
         (filter (\<lambda>line. line \<noteq> [] \<and> \<not> startswith line (ustr ''#'')) (map strip ls))"
      using Cons.IH [of "packages @ [p]"] by blast
    have "parse_lines (l # ls) packages = Inr (packages @ (p # ds))"
      using False p ds(1) by (simp add: Let_def)
    moreover have "map Inr (p # ds) = map (try_separators SEPARATORS)
         (filter (\<lambda>line. line \<noteq> [] \<and> \<not> startswith line (ustr ''#'')) (map strip (l # ls)))"
      using False p ds(2) by simp
    ultimately show ?thesis by blast
  qed
qed

lemma parse_requirements_eq:
  "\<exists>ds. parse_requirements c = Inr ds
     \<and> map Inr ds = map (try_separators SEPARATORS) (surviving_lines c)"
  using parse_lines_eq [of "splitlines c" "[]"]
  by (simp add: parse_requirements_def surviving_lines_def)

lemma surviving_line_trimmed:
  "line \<in> set (surviving_lines c) \<Longrightarrow> line \<noteq> [] \<and> trimmed line \<and> \<not> startswith line (ustr ''#'')"
  by (auto simp add: surviving_lines_def trimmed_strip)

lemma name_of_line:
  assumes "line \<noteq> []" "trimmed line" "try_separators SEPARATORS line = Inr (name, version)"
  shows "trimmed name"
    and "name = [] \<longleftrightarrow> (\<exists>sep. selected_separator line = Some sep \<and> prefix sep line)"
proof -
  have "trimmed name \<and> (name = [] \<longleftrightarrow> (\<exists>sep. selected_separator line = Some sep \<and> prefix sep line))"
  proof (cases line rule: selected_separator_cases)
    case none
    then show ?thesis using assms by simp
  next
    case (some sep a b)
    have n: "name = strip a" using some(6) assms(3) by simp
    show ?thesis
    proof (cases "a = []")
      case True
      then show ?thesis using n some(1,4) by (simp add: strip_def trimmed_def)
    next
      case False
      have "hd a = hd line" using False some(4) by simp
      then have "\<not> is_space (hd a)" using assms(1,2) by (simp add: trimmed_def)
      then have "strip a \<noteq> []" using False by (simp add: strip_nonempty_prefix)
      moreover have "\<not> prefix sep line"
        using leftmost_not_prefix [OF some(3) False some(5)] some(4) by simp
      ultimately show ?thesis using n some(1) by (simp add: trimmed_strip)
    qed
  qed
  then show "trimmed name"
    and "name = [] \<longleftrightarrow> (\<exists>sep. selected_separator line = Some sep \<and> prefix sep line)"
    by simp_all
qed



text \<open>
  C9, as stated, fails on the manifest \<open>==1.0\<close>: its only declaration has the empty name.
\<close>

theorem empty_name_counterexample:
  "parse_requirements (ustr ''==1.0'') = Inr [([], Some (ustr ''1.0''))]"
  by (simp add: parse_requirements_def splitlines_def ustr_def is_linebreak_def strip_def
      is_space_def startswith_def SEPARATORS_def py_split1_def)

text \<open>
  C9, amended. The parser returns one declaration per surviving line, and the name of each
  has no white space at either end. The name is empty exactly when the line begins with its
  selected separator (the first separator of the list that occurs in it); in particular it is
  not empty for a line without separator and for a line that begins with its name.
\<close>

theorem parsed_name_trimmed:
  "\<exists>ds. parse_requirements c = Inr ds \<and> length ds = length (surviving_lines c)
     \<and> (\<forall>i < length ds.
           trimmed (fst (ds ! i))
           \<and> (fst (ds ! i) = [] \<longleftrightarrow>
                (\<exists>sep. selected_separator (surviving_lines c ! i) = Some sep
                   \<and> prefix sep (surviving_lines c ! i))))"
proof -
  obtain ds where ds: "parse_requirements c = Inr ds"
    "map Inr ds = map (try_separators SEPARATORS) (surviving_lines c)"
    using parse_requirements_eq by blast
  have len: "length ds = length (surviving_lines c)"
    using ds(2) by (metis length_map)
  have "trimmed (fst (ds ! i))
          \<and> (fst (ds ! i) = [] \<longleftrightarrow>
               (\<exists>sep. selected_separator (surviving_lines c ! i) = Some sep
                  \<and> prefix sep (surviving_lines c ! i)))"
    if i: "i < length ds" for i
  proof -
    have "Inr (ds ! i) = try_separators SEPARATORS (surviving_lines c ! i)"
      using i len ds(2) by (metis nth_map)
    then have t: "try_separators SEPARATORS (surviving_lines c ! i) = Inr (fst (ds ! i), snd (ds ! i))"
      by simp
    have "surviving_lines c ! i \<in> set (surviving_lines c)" using i len by simp
    then have "surviving_lines c ! i \<noteq> []" "trimmed (surviving_lines c ! i)"
      using surviving_line_trimmed by blast+
    then show ?thesis using name_of_line [OF _ _ t] by blast
  qed
  then show ?thesis using ds(1) len by blast
qed

theorem parsed_name_trimmed_witness:
  "parse_requirements (ustr ''==1.0'' @ [10] @ ustr '' flask '') =
     Inr [([], Some (ustr ''1.0'')), (ustr ''flask'', None)]
   \<and> trimmed (ustr ''flask'')
   \<and> prefix (ustr ''=='') (ustr ''==1.0'')"
proof -
  let ?c = "ustr ''==1.0'' @ [10] @ ustr '' flask ''"
  have p: "parse_requirements ?c = Inr [([], Some (ustr ''1.0'')), (ustr ''flask'', None)]"
    by (simp add: parse_requirements_def splitlines_def ustr_def is_linebreak_def strip_def
        is_space_def startswith_def SEPARATORS_def py_split1_def)
  have s: "surviving_lines ?c = [ustr ''==1.0'', ustr ''flask'']"
    by (simp add: surviving_lines_def splitlines_def ustr_def is_linebreak_def strip_def
        is_space_def startswith_def)
  obtain ds where ds: "parse_requirements ?c = Inr ds"
    "\<forall>i < length ds. trimmed (fst (ds ! i))
       \<and> (fst (ds ! i) = [] \<longleftrightarrow>
            (\<exists>sep. selected_separator (surviving_lines ?c ! i) = Some sep
               \<and> prefix sep (surviving_lines ?c ! i)))"
    using parsed_name_trimmed [of ?c] by blast
  have eq: "ds = [([], Some (ustr ''1.0'')), (ustr ''flask'', None)]"
    using ds(1) p by simp
  have "trimmed (fst (ds ! 1))" using ds(2) [rule_format, of 1] eq by simp
  then have t: "trimmed (ustr ''flask'')" using eq by simp
  have "fst (ds ! 0) = [] \<longleftrightarrow>
          (\<exists>sep. selected_separator (surviving_lines ?c ! 0) = Some sep
             \<and> prefix sep (surviving_lines ?c ! 0))"
    using ds(2) [rule_format, of 0] eq by simp
  then obtain sep where "selected_separator (ustr ''==1.0'') = Some sep" "prefix sep (ustr ''==1.0'')"
    using eq s by auto
  moreover have "selected_separator (ustr ''==1.0'') = Some (ustr ''=='')"
    by (simp add: selected_separator_def SEPARATORS_def ustr_def)
  ultimately have "prefix (ustr ''=='') (ustr ''==1.0'')" by simp
  then show ?thesis using p t by simp
qed


section \<open>Properties of the similarity scorer\<close>

lemma Max_insert_insert:
  "finite S \<Longrightarrow> Max (insert (b::int) (insert x S)) = Max (insert (max b x) S)"
  by (cases "S = {}") (simp_all add: max.assoc)

lemma closest_loop_step:
  "closest_loop ratio lower package (p # ps) (best, closest) =
     closest_loop ratio lower package ps
       (max best (ratio (lower package) (lower p)),
        if ratio (lower package) (lower p) > best then Some p else closest)"
  by (simp add: Let_def max_def)

lemma closest_loop_fst:
  "fst (closest_loop ratio lower package ps (best, closest)) =
     Max (insert best ((\<lambda>p. ratio (lower package) (lower p)) ` set ps))"
proof (induction ps arbitrary: best closest)
  case Nil
  then show ?case by simp
next
  case (Cons p ps)
  show ?case
    unfolding closest_loop_step Cons.IH
    by (simp add: Max_insert_insert del: Max_insert)
qed

lemma closest_loop_snd:
  "snd (closest_loop ratio lower package ps (best, closest)) =
     (if best < Max (insert best ((\<lambda>p. ratio (lower package) (lower p)) ` set ps))
      then find (\<lambda>p. ratio (lower package) (lower p) =
                  Max (insert best ((\<lambda>p. ratio (lower package) (lower p)) ` set ps))) ps
      else closest)"
proof (induction ps arbitrary: best closest)
  case Nil
  then show ?case by simp
next
  case (Cons p ps)
  let ?f = "\<lambda>p. ratio (lower package) (lower p)"
  let ?b = "max best (?f p)"
  let ?m = "Max (insert ?b (?f ` set ps))"
  define mm where "mm = ?m"
  have m: "Max (insert best (?f ` set (p # ps))) = mm"
    unfolding mm_def by (simp add: Max_insert_insert del: Max_insert)
  have ge: "?b \<le> mm" unfolding mm_def by (rule Max_ge) simp_all
  show ?case
    unfolding closest_loop_step Cons.IH m mm_def [symmetric]
    using ge by (auto simp add: max_def split: if_splits)
qed



lemma top_packages_nonempty: "TOP_PACKAGES \<noteq> []"
  by (simp add: TOP_PACKAGES_def)

text \<open>
  C6, amended. For every package name and every scorer, the score returned is the largest of
  0 and the scores of the reference names (the largest score itself when no score is
  negative). When it is positive, the name returned is the first reference name, in list
  order, whose score it is; when it is 0 no name is returned (\<open>None\<close>).
\<close>

theorem check_typosquatting_best:
  "fst (check_typosquatting ratio lower package) =
     Max (insert 0 ((\<lambda>p. ratio (lower package) (lower p)) ` set TOP_PACKAGES))
   \<and> snd (check_typosquatting ratio lower package) =
       (if 0 < fst (check_typosquatting ratio lower package)
        then find (\<lambda>p. ratio (lower package) (lower p) = fst (check_typosquatting ratio lower package))
               TOP_PACKAGES
        else None)
   \<and> (0 < fst (check_typosquatting ratio lower package) \<longrightarrow>
        fst (check_typosquatting ratio lower package) =
          Max ((\<lambda>p. ratio (lower package) (lower p)) ` set TOP_PACKAGES)
        \<and> (\<exists>i < length TOP_PACKAGES.
              snd (check_typosquatting ratio lower package) = Some (TOP_PACKAGES ! i)
              \<and> ratio (lower package) (lower (TOP_PACKAGES ! i)) =
                  fst (check_typosquatting ratio lower package)
              \<and> (\<forall>j < i. ratio (lower package) (lower (TOP_PACKAGES ! j)) \<noteq>
                            fst (check_typosquatting ratio lower package))))
   \<and> ((\<forall>p \<in> set TOP_PACKAGES. 0 \<le> ratio (lower package) (lower p)) \<longrightarrow>
        fst (check_typosquatting ratio lower package) =
          Max ((\<lambda>p. ratio (lower package) (lower p)) ` set TOP_PACKAGES))"
proof -
  let ?f = "\<lambda>p. ratio (lower package) (lower p)"
  let ?S = "?f ` set TOP_PACKAGES"
  let ?r = "check_typosquatting ratio lower package"
  have fin: "finite ?S" and ne: "?S \<noteq> {}" using top_packages_nonempty by simp_all
  have 1: "fst ?r = Max (insert 0 ?S)"
    unfolding check_typosquatting_def by (rule closest_loop_fst)
  have 2: "snd ?r = (if 0 < fst ?r then find (\<lambda>p. ?f p = fst ?r) TOP_PACKAGES else None)"
    unfolding 1 unfolding check_typosquatting_def by (rule closest_loop_snd)
  have mx: "fst ?r = max 0 (Max ?S)" using fin ne by (simp add: 1)
  have 3: "fst ?r = Max ?S" if "0 < fst ?r"
    using that mx by (simp add: max_def split: if_splits)
  have 4: "\<exists>i < length TOP_PACKAGES. snd ?r = Some (TOP_PACKAGES ! i)
              \<and> ?f (TOP_PACKAGES ! i) = fst ?r
              \<and> (\<forall>j < i. ?f (TOP_PACKAGES ! j) \<noteq> fst ?r)" if pos: "0 < fst ?r"
  proof -
    have "Max ?S \<in> ?S" using fin ne by (rule Max_in)
    then obtain q where "q \<in> set TOP_PACKAGES" "?f q = fst ?r" using 3 [OF pos] by auto
    then have "find (\<lambda>p. ?f p = fst ?r) TOP_PACKAGES \<noteq> None" by (auto simp: find_None_iff)
    then obtain p where p: "find (\<lambda>p. ?f p = fst ?r) TOP_PACKAGES = Some p" by blast
    then have "snd ?r = Some p" using 2 pos by simp
    then show ?thesis using p unfolding find_Some_iff by auto
  qed
  have 5: "fst ?r = Max ?S" if nn: "\<forall>p \<in> set TOP_PACKAGES. 0 \<le> ?f p"
  proof -
    have "Max ?S \<in> ?S" using fin ne by (rule Max_in)
    then have "0 \<le> Max ?S" using nn by auto
    then show ?thesis using mx by simp
  qed
  show ?thesis using 1 2 3 4 5 by blast
qed


theorem check_typosquatting_best_witness:
  "check_typosquatting indel_ratio ascii_lower (ustr ''S'') = (33, Some (ustr ''flask''))
   \<and> Max ((\<lambda>p. indel_ratio (ascii_lower (ustr ''S'')) (ascii_lower p)) ` set TOP_PACKAGES) = 33"
proof -
  have e: "check_typosquatting indel_ratio ascii_lower (ustr ''S'') = (33, Some (ustr ''flask''))"
    by (simp add: check_typosquatting_def TOP_PACKAGES_def ustr_def indel_ratio_def
        ascii_lower_def Let_def)
  then have "0 < fst (check_typosquatting indel_ratio ascii_lower (ustr ''S''))" by simp
  then have "fst (check_typosquatting indel_ratio ascii_lower (ustr ''S'')) =
      Max ((\<lambda>p. indel_ratio (ascii_lower (ustr ''S'')) (ascii_lower p)) ` set TOP_PACKAGES)"
    using check_typosquatting_best [of indel_ratio ascii_lower "ustr ''S''"] by blast
  then show ?thesis using e by simp
qed

text \<open>
  C6, as stated, fails on the name \<open>zzz\<close>, which has no character in common with any
  reference name: every score is 0 and the name returned is \<open>None\<close>, not a reference name.
\<close>

theorem no_closest_name_counterexample:
  "check_typosquatting indel_ratio ascii_lower (ustr ''zzz'') = (0, None)"
  by (simp add: check_typosquatting_def TOP_PACKAGES_def ustr_def indel_ratio_def
      ascii_lower_def Let_def)

section \<open>Properties of the age lookup\<close>

lemma artifact_instant_Some:
  "artifact_instant fromisoformat artifact = Some u \<Longrightarrow>
   \<exists>t. py_item artifact (ustr ''upload_time_iso_8601'') = Inr (JStr t)
      \<and> fromisoformat (replace_Z t) = Aware u"
  by (auto simp add: artifact_instant_def split: sum.splits json.splits iso_time.splits)

lemma artifact_instant_None:
  "artifact_instant fromisoformat artifact = None \<Longrightarrow>
   (case py_item artifact (ustr ''upload_time_iso_8601'') of
      Inl e \<Rightarrow> True
    | Inr (JStr t) \<Rightarrow> fromisoformat (replace_Z t) = Invalid \<or> (\<exists>n. fromisoformat (replace_Z t) = Naive n)
    | Inr _ \<Rightarrow> True)"
  by (auto simp add: artifact_instant_def split: sum.splits json.splits iso_time.splits)

lemma first_artifact_listed:
  assumes "py_first urls = Inr artifact" "artifact_instant fromisoformat artifact = Some u"
    "py_item data (ustr ''urls'') = Inr urls"
  shows "u \<in> set (upload_instants fromisoformat data)"
proof -
  obtain t where "py_item artifact (ustr ''upload_time_iso_8601'') = Inr (JStr t)"
    using artifact_instant_Some [OF assms(2)] by blast
  then obtain d where d: "artifact = JObj d"
    by (cases artifact) (simp_all add: py_item_def)
  then obtain rest where "urls = JArr (artifact # rest)"
    using assms(1) by (auto simp add: py_first_def split: json.splits list.splits)
  then show ?thesis
    using assms(2,3) by (simp add: upload_instants_def List.map_filter_simps)
qed

lemma fetch_pypi_age_success:
  assumes "get (pypi_url package) = Response status (Some data)"
    "py_item data (ustr ''urls'') = Inr urls" "py_first urls = Inr artifact"
    "artifact_instant fromisoformat artifact = Some u"
  shows "fetch_pypi_age get fromisoformat now package = Some ((now - u) div microseconds_per_day)"
proof -
  obtain t where "py_item artifact (ustr ''upload_time_iso_8601'') = Inr (JStr t)"
    "fromisoformat (replace_Z t) = Aware u"
    using artifact_instant_Some [OF assms(4)] by blast
  then show ?thesis
    using assms(1-3) by (simp add: fetch_pypi_age_def fetch_pypi_age_try_def)
qed

lemma fetch_pypi_age_failure:
  "get (pypi_url package) = Raised \<Longrightarrow> fetch_pypi_age get fromisoformat now package = None"
  "get (pypi_url package) = Response status None \<Longrightarrow>
     fetch_pypi_age get fromisoformat now package = None"
  "get (pypi_url package) = Response status (Some data) \<Longrightarrow>
     py_item data (ustr ''urls'') = Inl e \<Longrightarrow>
     fetch_pypi_age get fromisoformat now package = None"
  "get (pypi_url package) = Response status (Some data) \<Longrightarrow>
     py_item data (ustr ''urls'') = Inr urls \<Longrightarrow> py_first urls = Inl e \<Longrightarrow>
     fetch_pypi_age get fromisoformat now package = None"
  "get (pypi_url package) = Response status (Some data) \<Longrightarrow>
     py_item data (ustr ''urls'') = Inr urls \<Longrightarrow> py_first urls = Inr artifact \<Longrightarrow>
     artifact_instant fromisoformat artifact = None \<Longrightarrow>
     fetch_pypi_age get fromisoformat now package = None"
      apply (simp_all add: fetch_pypi_age_def fetch_pypi_age_try_def)
  apply (drule artifact_instant_None)
  apply (auto split: sum.splits json.splits iso_time.splits)
  done

lemma days_nonneg: "0 \<le> (now - u) div microseconds_per_day \<longleftrightarrow> u \<le> now"
  by (simp add: microseconds_per_day_def pos_imp_zdiv_nonneg_iff)

text \<open>
  C7, as stated, fails on a registry answer whose first listed artifact is not the earliest:
  with artifacts uploaded on 11 and on 1 January 2024 (in this order) and the clock at
  21 January, the age is 10 days, not the 20 days since the earliest upload. It fails as well
  when the clock is behind the first upload: at 1 January the age is -10.
\<close>

theorem first_artifact_age_counterexample:
  "fetch_pypi_age sample_registry sample_fromisoformat 1705795200000000 (ustr ''demo'') = Some 10
   \<and> (1705795200000000 - Min (set (upload_instants sample_fromisoformat
          (JObj [(ustr ''urls'',
            JArr [JObj [(ustr ''upload_time_iso_8601'', JStr (ustr ''2024-01-11T00:00:00Z''))],
                  JObj [(ustr ''upload_time_iso_8601'', JStr (ustr ''2024-01-01T00:00:00Z''))]])]))))
        div microseconds_per_day = 20
   \<and> fetch_pypi_age sample_registry sample_fromisoformat 1704067200000000 (ustr ''demo'') = Some (- 10)"
  by (simp add: fetch_pypi_age_def fetch_pypi_age_try_def sample_registry_def
      sample_fromisoformat_def py_item_def py_first_def replace_Z_def ustr_def pypi_url_def
      microseconds_per_day_def upload_instants_def artifact_instant_def List.map_filter_simps)

text \<open>
  C7, amended. When the registry answers with a JSON object whose \<open>urls\<close> entry has a first
  element with a readable upload time \<open>u\<close> (a text that \<open>fromisoformat\<close> reads as a time with
  offset), the age is the floor of the days from \<open>u\<close> to now: non-negative exactly when \<open>u\<close>
  is not after now, and the days since the earliest listed upload when no listed artifact is
  earlier than the first. In every other case (the request raises, the body is not JSON,
  there is no usable \<open>urls\<close> entry or first element, the upload time is missing or unreadable)
  the age is absent.
\<close>

theorem fetch_pypi_age_first_artifact:
  "(\<forall>status data urls artifact u.
       get (pypi_url package) = Response status (Some data)
       \<and> py_item data (ustr ''urls'') = Inr urls \<and> py_first urls = Inr artifact
       \<and> artifact_instant fromisoformat artifact = Some u
     \<longrightarrow> fetch_pypi_age get fromisoformat now package = Some ((now - u) div microseconds_per_day)
         \<and> (0 \<le> (now - u) div microseconds_per_day \<longleftrightarrow> u \<le> now)
         \<and> u \<in> set (upload_instants fromisoformat data)
         \<and> ((\<forall>t \<in> set (upload_instants fromisoformat data). u \<le> t) \<longrightarrow>
              fetch_pypi_age get fromisoformat now package =
                Some ((now - Min (set (upload_instants fromisoformat data)))
                        div microseconds_per_day)))
   \<and> (get (pypi_url package) = Raised \<longrightarrow>
        fetch_pypi_age get fromisoformat now package = None)
   \<and> (\<forall>status. get (pypi_url package) = Response status None \<longrightarrow>
        fetch_pypi_age get fromisoformat now package = None)
   \<and> (\<forall>status data e. get (pypi_url package) = Response status (Some data)
          \<and> py_item data (ustr ''urls'') = Inl e \<longrightarrow>
        fetch_pypi_age get fromisoformat now package = None)
   \<and> (\<forall>status data urls e. get (pypi_url package) = Response status (Some data)
          \<and> py_item data (ustr ''urls'') = Inr urls \<and> py_first urls = Inl e \<longrightarrow>
        fetch_pypi_age get fromisoformat now package = None)
   \<and> (\<forall>status data urls artifact. get (pypi_url package) = Response status (Some data)
          \<and> py_item data (ustr ''urls'') = Inr urls \<and> py_first urls = Inr artifact
          \<and> artifact_instant fromisoformat artifact = None \<longrightarrow>
        fetch_pypi_age get fromisoformat now package = None)"
proof (intro conjI allI impI; (elim conjE)?)
  fix status data urls artifact u
  assume a: "get (pypi_url package) = Response status (Some data)"
    "py_item data (ustr ''urls'') = Inr urls" "py_first urls = Inr artifact"
    "artifact_instant fromisoformat artifact = Some u"
  show r: "fetch_pypi_age get fromisoformat now package = Some ((now - u) div microseconds_per_day)"
    using a by (rule fetch_pypi_age_success)
  show "0 \<le> (now - u) div microseconds_per_day \<longleftrightarrow> u \<le> now"
    by (rule days_nonneg)
  show m: "u \<in> set (upload_instants fromisoformat data)"
    using a(3,4,2) by (rule first_artifact_listed)
  assume "\<forall>t \<in> set (upload_instants fromisoformat data). u \<le> t"
  then have "Min (set (upload_instants fromisoformat data)) = u"
    using m by (intro Min_eqI) auto
  then show "fetch_pypi_age get fromisoformat now package =
      Some ((now - Min (set (upload_instants fromisoformat data))) div microseconds_per_day)"
    using r by simp
qed (simp_all add: fetch_pypi_age_failure)

theorem fetch_pypi_age_first_artifact_witness:
  "fetch_pypi_age sample_registry sample_fromisoformat 1705795200000000 (ustr ''demo'') = Some 10
   \<and> fetch_pypi_age sample_registry sample_fromisoformat 1705795200000000 (ustr ''other'') = None"
proof -
  let ?a = "JObj [(ustr ''upload_time_iso_8601'', JStr (ustr ''2024-01-11T00:00:00Z''))]"
  let ?b = "JObj [(ustr ''upload_time_iso_8601'', JStr (ustr ''2024-01-01T00:00:00Z''))]"
  let ?data = "JObj [(ustr ''urls'', JArr [?a, ?b])]"
  let ?nf = "JObj [(ustr ''message'', JStr (ustr ''Not Found''))]"
  have 1: "sample_registry (pypi_url (ustr ''demo'')) = Response 200 (Some ?data)"
    by (simp add: sample_registry_def)
  have 2: "py_item ?data (ustr ''urls'') = Inr (JArr [?a, ?b])"
    by (simp add: py_item_def)
  have 3: "py_first (JArr [?a, ?b]) = Inr ?a"
    by (simp add: py_first_def)
  have 4: "artifact_instant sample_fromisoformat ?a = Some 1704931200000000"
    by (simp add: artifact_instant_def py_item_def replace_Z_def sample_fromisoformat_def ustr_def)
  have "fetch_pypi_age sample_registry sample_fromisoformat 1705795200000000 (ustr ''demo'') =
          Some ((1705795200000000 - 1704931200000000) div microseconds_per_day)"
    using fetch_pypi_age_first_artifact
      [of sample_registry "ustr ''demo''" sample_fromisoformat 1705795200000000] 1 2 3 4
    by blast
  then have d: "fetch_pypi_age sample_registry sample_fromisoformat 1705795200000000 (ustr ''demo'')
      = Some 10"
    by (simp add: microseconds_per_day_def)
  have 5: "sample_registry (pypi_url (ustr ''other'')) = Response 404 (Some ?nf)"
    by (simp add: sample_registry_def pypi_url_def ustr_def)
  have 6: "py_item ?nf (ustr ''urls'') = Inl KeyError"
    by (simp add: py_item_def ustr_def)
  have "fetch_pypi_age sample_registry sample_fromisoformat 1705795200000000 (ustr ''other'') = None"
    using fetch_pypi_age_first_artifact
      [of sample_registry "ustr ''other''" sample_fromisoformat 1705795200000000] 5 6
    by blast
  then show ?thesis using d by simp
qed

section \<open>Properties of the dispatcher and of the rows\<close>

lemma completed_futures_perm:
  assumes "completion_order (length packages) order"
  shows "mset (completed_futures post packages order) =
         mset (map (\<lambda>p. (fst p, query_osv post (fst p) (snd p))) packages)"
proof -
  let ?g = "\<lambda>p. (fst p, query_osv post (fst p) (snd p))"
  have "mset (completed_futures post packages order) =
          image_mset (\<lambda>i. ?g (packages ! i)) (mset order)"
    by (simp add: completed_futures_def)
  also have "\<dots> = image_mset (\<lambda>i. ?g (packages ! i)) (mset [0..<length packages])"
    using assms by (simp add: completion_order_def)
  also have "\<dots> = mset (map ?g (map (\<lambda>i. packages ! i) [0..<length packages]))"
    by (simp add: multiset.map_comp comp_def)
  also have "\<dots> = mset (map ?g packages)"
    by (simp add: map_nth)
  finally show ?thesis .
qed

lemma store_result_apply:
  "store_result kv m k = (if k = fst kv then Some (snd kv) else m k)"
  by (simp add: store_result_def)

lemma dom_store_result: "dom (store_result kv m) = insert (fst kv) (dom m)"
  by (simp add: store_result_def)

lemma dom_fold_store:
  "dom (fold store_result kvs m0) = dom m0 \<union> fst ` set kvs"
  by (induction kvs arbitrary: m0) (auto simp add: dom_store_result)

lemma fold_store_notin:
  "k \<notin> fst ` set kvs \<Longrightarrow> fold store_result kvs m0 k = m0 k"
  by (induction kvs arbitrary: m0) (auto simp add: store_result_apply)

lemma fold_store_distinct:
  "distinct (map fst kvs) \<Longrightarrow> (k, v) \<in> set kvs \<Longrightarrow> fold store_result kvs m0 k = Some v"
proof (induction kvs arbitrary: m0)
  case Nil
  then show ?case by simp
next
  case (Cons kv kvs)
  show ?case
  proof (cases "(k, v) = kv")
    case True
    then have "k \<notin> fst ` set kvs" using Cons.prems(1) by force
    then have "fold store_result kvs (store_result kv m0) k = store_result kv m0 k"
      by (rule fold_store_notin)
    moreover have "store_result kv m0 k = Some v"
      using True by (auto simp add: store_result_apply)
    ultimately show ?thesis by simp
  next
    case False
    then have "(k, v) \<in> set kvs" using Cons.prems(2) by simp
    moreover have "distinct (map fst kvs)" using Cons.prems(1) by simp
    ultimately have "fold store_result kvs (store_result kv m0) k = Some v"
      by (rule Cons.IH [rotated])
    then show ?thesis by simp
  qed
qed

lemma count_list_distinct: "distinct xs \<Longrightarrow> x \<in> set xs \<Longrightarrow> count_list xs x = 1"
  by (induction xs) (auto simp: count_list_0_iff)

lemma count_list_perm: "mset xs = mset ys \<Longrightarrow> count_list xs k = count_list ys k"
  by (metis count_mset)


lemma fold_store_value:
  "fold store_result kvs m0 k = Some v \<Longrightarrow> m0 k = Some v \<or> v \<in> snd ` set kvs"
proof (induction kvs arbitrary: m0)
  case Nil
  then show ?case by simp
next
  case (Cons kv kvs)
  from Cons.prems have "fold store_result kvs (store_result kv m0) k = Some v" by simp
  then have "store_result kv m0 k = Some v \<or> v \<in> snd ` set kvs" by (rule Cons.IH)
  then show ?case by (auto simp add: store_result_apply split: if_splits)
qed

lemma fetch_all_values:
  assumes "fetch_all_vulnerabilities post packages order k = Some v"
  shows "\<exists>package version. v = query_osv post package version"
proof -
  have "v \<in> snd ` set (completed_futures post packages order)"
    using fold_store_value [of "completed_futures post packages order" Map.empty k v] assms
    by (simp add: fetch_all_vulnerabilities_def)
  then obtain i where "v = query_osv post (fst (packages ! i)) (snd (packages ! i))"
    by (auto simp add: completed_futures_def)
  then show ?thesis by blast
qed

lemma build_rows_step:
  "build_rows repr ratio lower age_of vuln_data ((pkg, ver) # rest) rows =
     (case calculate_trust_score repr (case vuln_data pkg of None \<Rightarrow> JArr [] | Some v \<Rightarrow> v)
             (fst (check_typosquatting ratio lower pkg))
             (case age_of pkg of None \<Rightarrow> False | Some a \<Rightarrow> a < 30) of
        Inl e \<Rightarrow> Inl e
      | Inr score \<Rightarrow>
         (case py_len (case vuln_data pkg of None \<Rightarrow> JArr [] | Some v \<Rightarrow> v) of
            Inl e \<Rightarrow> Inl e
          | Inr n \<Rightarrow>
             (case score_breakdown repr (case vuln_data pkg of None \<Rightarrow> JArr [] | Some v \<Rightarrow> v)
                     (fst (check_typosquatting ratio lower pkg))
                     (case age_of pkg of None \<Rightarrow> False | Some a \<Rightarrow> a < 30) of
                Inl e \<Rightarrow> Inl e
              | Inr reasons \<Rightarrow>
                  build_rows repr ratio lower age_of vuln_data rest
                    (rows @
                     [\<lparr>row_package = pkg,
                       row_version = (case ver of
                                        None \<Rightarrow> ustr ''Any''
                                      | Some v \<Rightarrow> if v = [] then ustr ''Any'' else v),
                       row_vulnerabilities = n,
                       row_similarity = fst (check_typosquatting ratio lower pkg),
                       row_closest = snd (check_typosquatting ratio lower pkg),
                       row_age = age_of pkg,
                       row_trust_score = score,
                       row_explanation = py_join (ustr ''<br>'') reasons\<rparr>]))))"
  by (simp add: Let_def case_prod_beta)


lemma build_rows_matches:
  "build_rows repr ratio lower age_of vuln_data packages rows = Inr out \<Longrightarrow>
   \<exists>new. out = rows @ new
      \<and> list_all2 (row_matches repr ratio lower age_of vuln_data) packages new"
proof (induction packages arbitrary: rows)
  case Nil
  then show ?case by simp
next
  case (Cons p packages)
  obtain pkg ver where p: "p = (pkg, ver)" by (cases p)
  let ?vulns = "case vuln_data pkg of None \<Rightarrow> JArr [] | Some v \<Rightarrow> v"
  let ?new = "case age_of pkg of None \<Rightarrow> False | Some a \<Rightarrow> a < 30"
  let ?sim = "fst (check_typosquatting ratio lower pkg)"
  have prem: "build_rows repr ratio lower age_of vuln_data ((pkg, ver) # packages) rows = Inr out"
    using Cons.prems p by simp
  obtain score where s: "calculate_trust_score repr ?vulns ?sim ?new = Inr score"
    using prem unfolding build_rows_step
    by (cases "calculate_trust_score repr ?vulns ?sim ?new") simp_all
  obtain n where n: "py_len ?vulns = Inr n"
    using prem unfolding build_rows_step s
    by (cases "py_len ?vulns") simp_all
  obtain reasons where b: "score_breakdown repr ?vulns ?sim ?new = Inr reasons"
    using prem unfolding build_rows_step s n
    by (cases "score_breakdown repr ?vulns ?sim ?new") simp_all
  let ?row = "\<lparr>row_package = pkg,
      row_version = (case ver of None \<Rightarrow> ustr ''Any'' | Some v \<Rightarrow> if v = [] then ustr ''Any'' else v),
      row_vulnerabilities = n, row_similarity = ?sim,
      row_closest = snd (check_typosquatting ratio lower pkg),
      row_age = age_of pkg, row_trust_score = score,
      row_explanation = py_join (ustr ''<br>'') reasons\<rparr>"
  have "build_rows repr ratio lower age_of vuln_data packages (rows @ [?row]) = Inr out"
    using prem unfolding build_rows_step s n b by simp
  then obtain new where new: "out = (rows @ [?row]) @ new"
    "list_all2 (row_matches repr ratio lower age_of vuln_data) packages new"
    using Cons.IH by blast
  have "row_matches repr ratio lower age_of vuln_data p ?row"
    unfolding row_matches_def Let_def p using s n b by simp
  then have "list_all2 (row_matches repr ratio lower age_of vuln_data) (p # packages) (?row # new)"
    using new(2) by simp
  moreover have "out = rows @ (?row # new)" using new(1) by simp
  ultimately show ?case by blast
qed

lemma score_breakdown_vuln_list:
  "\<exists>reasons. score_breakdown repr (vuln_list ds) similarity is_new = Inr reasons"
  by (simp add: score_breakdown_def critical_found_vuln_list Let_def)

lemma calculate_trust_score_vuln_list:
  "\<exists>score. calculate_trust_score repr (vuln_list ds) similarity is_new = Inr score"
  by (simp add: calculate_trust_score_def critical_found_vuln_list Let_def)

lemma build_rows_total:
  "\<forall>pkg v. vuln_data pkg = Some v \<longrightarrow> (\<exists>ds. v = vuln_list ds) \<Longrightarrow>
   \<exists>out. build_rows repr ratio lower age_of vuln_data packages rows = Inr out"
proof (induction packages arbitrary: rows)
  case Nil
  then show ?case by simp
next
  case (Cons p packages)
  obtain pkg ver where p: "p = (pkg, ver)" by (cases p)
  let ?vulns = "case vuln_data pkg of None \<Rightarrow> JArr [] | Some v \<Rightarrow> v"
  let ?new = "case age_of pkg of None \<Rightarrow> False | Some a \<Rightarrow> a < 30"
  let ?sim = "fst (check_typosquatting ratio lower pkg)"
  obtain ds where ds: "?vulns = vuln_list ds"
  proof (cases "vuln_data pkg")
    case None
    then have "?vulns = vuln_list []" by (simp add: vuln_list_def)
    then show ?thesis using that by blast
  next
    case (Some v)
    then obtain ds where "v = vuln_list ds" using Cons.prems by blast
    then have "?vulns = vuln_list ds" using Some by simp
    then show ?thesis using that by blast
  qed
  obtain score where s: "calculate_trust_score repr ?vulns ?sim ?new = Inr score"
    unfolding ds using calculate_trust_score_vuln_list by blast
  obtain reasons where b: "score_breakdown repr ?vulns ?sim ?new = Inr reasons"
    unfolding ds using score_breakdown_vuln_list by blast
  have n: "py_len ?vulns = Inr (length ds)"
    unfolding ds by (simp add: py_len_def vuln_list_def)
  show ?case
    unfolding p build_rows_step s n b using Cons.IH [OF Cons.prems] by simp
qed


lemma risk_records_rows:
  assumes "\<forall>package version. \<exists>ds. query_osv (osv_post w) package version = vuln_list ds"
  shows "\<exists>packages rows. parse_requirements c = Inr packages
     \<and> map Inr packages = map (try_separators SEPARATORS) (surviving_lines c)
     \<and> risk_records w c = Inr rows
     \<and> list_all2 (row_matches (py_repr w) (fuzz_ratio w) (str_lower w)
           (fetch_pypi_age (pypi_get w) (iso_parser w) (utc_now w))
           (fetch_all_vulnerabilities (osv_post w) packages (futures_order w (length packages))))
         packages rows"
proof -
  obtain packages where ps: "parse_requirements c = Inr packages"
    "map Inr packages = map (try_separators SEPARATORS) (surviving_lines c)"
    using parse_requirements_eq by blast
  let ?vd = "fetch_all_vulnerabilities (osv_post w) packages (futures_order w (length packages))"
  have "\<forall>pkg v. ?vd pkg = Some v \<longrightarrow> (\<exists>ds. v = vuln_list ds)"
    using fetch_all_values assms by metis
  then obtain out where out: "build_rows (py_repr w) (fuzz_ratio w) (str_lower w)
      (fetch_pypi_age (pypi_get w) (iso_parser w) (utc_now w)) ?vd packages [] = Inr out"
    using build_rows_total by blast
  then have m: "list_all2 (row_matches (py_repr w) (fuzz_ratio w) (str_lower w)
      (fetch_pypi_age (pypi_get w) (iso_parser w) (utc_now w)) ?vd) packages out"
    using build_rows_matches by fastforce
  have "risk_records w c = Inr out"
    using ps(1) out by (simp add: risk_records_def Let_def)
  then show ?thesis using ps m by blast
qed

lemma query_osv_unreachable: "query_osv osv_unreachable package version = vuln_list []"
  by (simp add: query_osv_def query_osv_try_def osv_unreachable_def vuln_list_def)

text \<open>
  C3, as stated, fails in its second half on the manifest \<open>flask\<close> when the vulnerability
  database answers with status 200 and the body \<open>{"vulns": null}\<close>: the manifest has one
  surviving line and the parser returns its declaration, but the run raises \<open>TypeError\<close> and
  produces no record.
\<close>

theorem no_record_counterexample:
  "length (surviving_lines (ustr ''flask'')) = 1
   \<and> parse_requirements (ustr ''flask'') = Inr [(ustr ''flask'', None)]
   \<and> risk_records (sample_collaborators osv_null_vulns) (ustr ''flask'') = Inl TypeError"
proof -
  have s: "length (surviving_lines (ustr ''flask'')) = 1"
    by (simp add: surviving_lines_def splitlines_def ustr_def is_linebreak_def strip_def
        is_space_def startswith_def)
  have p: "parse_requirements (ustr ''flask'') = Inr [(ustr ''flask'', None)]"
    by (simp add: parse_requirements_def splitlines_def ustr_def is_linebreak_def strip_def
        is_space_def startswith_def SEPARATORS_def py_split1_def)
  have q: "query_osv osv_null_vulns package version = JNull" for package version
    by (simp add: query_osv_def query_osv_try_def osv_null_vulns_def py_get_def)
  have f: "fetch_all_vulnerabilities osv_null_vulns [(ustr ''flask'', None)] [0] (ustr ''flask'')
      = Some JNull"
    by (simp add: fetch_all_vulnerabilities_def completed_futures_def store_result_def q)
  have c: "calculate_trust_score repr JNull similarity is_new = Inl TypeError"
    for repr similarity is_new
    by (simp add: calculate_trust_score_def critical_found_def py_iter_def)
  have "risk_records (sample_collaborators osv_null_vulns) (ustr ''flask'') = Inl TypeError"
    by (simp add: risk_records_def sample_collaborators_def p Let_def build_rows_step f c
        del: build_rows.simps)
  then show ?thesis using s p by simp
qed

text \<open>
  C3, amended. For every manifest text the parser returns one declaration per surviving line
  (a line that, trimmed, is neither empty nor starts with \<open>#\<close>): the declaration of the i-th
  surviving line is the i-th one, so the order is that of the input and equal lines give
  equal declarations, none dropped. Whenever the vulnerability lookups answer with lists of
  records, the run produces one record per declaration, in the same order, so as many records
  as the manifest has surviving lines.
\<close>

theorem one_record_per_line:
  "\<exists>packages. parse_requirements c = Inr packages
     \<and> map Inr packages = map (try_separators SEPARATORS) (surviving_lines c)
     \<and> length packages = length (surviving_lines c)
     \<and> ((\<forall>package version. \<exists>ds. query_osv (osv_post w) package version = vuln_list ds) \<longrightarrow>
          (\<exists>rows. risk_records w c = Inr rows
             \<and> length rows = length (surviving_lines c)
             \<and> map row_package rows = map fst packages))"
proof -
  obtain packages where ps: "parse_requirements c = Inr packages"
    "map Inr packages = map (try_separators SEPARATORS) (surviving_lines c)"
    using parse_requirements_eq by blast
  have l1: "length packages = length (surviving_lines c)"
    using ps(2) by (metis length_map)
  have "\<exists>rows. risk_records w c = Inr rows
             \<and> length rows = length (surviving_lines c)
             \<and> map row_package rows = map fst packages"
    if h: "\<forall>package version. \<exists>ds. query_osv (osv_post w) package version = vuln_list ds"
  proof -
    obtain packages' rows where r: "parse_requirements c = Inr packages'"
      "risk_records w c = Inr rows"
      "list_all2 (row_matches (py_repr w) (fuzz_ratio w) (str_lower w)
           (fetch_pypi_age (pypi_get w) (iso_parser w) (utc_now w))
           (fetch_all_vulnerabilities (osv_post w) packages' (futures_order w (length packages'))))
         packages' rows"
      using risk_records_rows [OF h, of c] by blast
    have same: "packages' = packages" using r(1) ps(1) by simp
    have m: "list_all2 (row_matches (py_repr w) (fuzz_ratio w) (str_lower w)
           (fetch_pypi_age (pypi_get w) (iso_parser w) (utc_now w))
           (fetch_all_vulnerabilities (osv_post w) packages (futures_order w (length packages))))
         packages rows"
      using r(3) unfolding same .
    have l2: "length rows = length packages"
      using m by (simp add: list_all2_lengthD)
    have "row_package (rows ! i) = fst (packages ! i)" if "i < length packages" for i
      using list_all2_nthD [OF m that] by (simp add: row_matches_def Let_def)
    then have "map row_package rows = map fst packages"
      using l2 by (simp add: list_eq_iff_nth_eq)
    then show ?thesis using r(2) l1 l2 by (intro exI [of _ rows] conjI) simp_all
  qed
  then show ?thesis using ps l1 by (intro exI [of _ packages] conjI impI)
qed

theorem one_record_per_line_witness:
  "\<exists>rows. risk_records (sample_collaborators osv_unreachable)
       (ustr ''requests==2.0.0'' @ [10] @ ustr ''# comment'' @ [10] @ ustr ''requessts'' @ [10])
       = Inr rows
     \<and> length rows = 2
     \<and> map row_package rows = [ustr ''requests'', ustr ''requessts'']"
proof -
  let ?c = "ustr ''requests==2.0.0'' @ [10] @ ustr ''# comment'' @ [10] @ ustr ''requessts'' @ [10]"
  have h: "\<forall>package version. \<exists>ds.
      query_osv (osv_post (sample_collaborators osv_unreachable)) package version = vuln_list ds"
    using query_osv_unreachable by (auto simp add: sample_collaborators_def)
  have p: "parse_requirements ?c =
      Inr [(ustr ''requests'', Some (ustr ''2.0.0'')), (ustr ''requessts'', None)]"
    by (simp add: parse_requirements_def splitlines_def ustr_def is_linebreak_def strip_def
        is_space_def startswith_def SEPARATORS_def py_split1_def)
  obtain packages where t: "parse_requirements ?c = Inr packages"
    "length packages = length (surviving_lines ?c)"
    "(\<forall>package version. \<exists>ds.
        query_osv (osv_post (sample_collaborators osv_unreachable)) package version = vuln_list ds)
     \<longrightarrow> (\<exists>rows. risk_records (sample_collaborators osv_unreachable) ?c = Inr rows
             \<and> length rows = length (surviving_lines ?c)
             \<and> map row_package rows = map fst packages)"
    using one_record_per_line [of ?c "sample_collaborators osv_unreachable"] by blast
  have e: "packages = [(ustr ''requests'', Some (ustr ''2.0.0'')), (ustr ''requessts'', None)]"
    using t(1) p by simp
  obtain rows where r: "risk_records (sample_collaborators osv_unreachable) ?c = Inr rows"
    "length rows = length (surviving_lines ?c)"
    "map row_package rows = map fst packages"
    using t(3) h by blast
  have n: "length rows = 2" using r(2) t(2) e by simp
  have "map row_package rows = [ustr ''requests'', ustr ''requessts'']"
    using r(3) e by simp
  with r(1) n show ?thesis by (intro exI [of _ rows] conjI)
qed

text \<open>
  C8, amended. For every batch and every order in which the futures complete, the mapping
  returned has an entry for every declared package name and for no other; it is returned
  after one assignment per task, so each key is assigned once per declaration that carries
  the name. When the declared names are distinct, each key is assigned exactly once and its
  entry is the result of the lookup for that declaration.
\<close>

theorem fetch_all_vulnerabilities_complete:
  assumes "completion_order (length packages) order"
  shows "dom (fetch_all_vulnerabilities post packages order) = fst ` set packages
    \<and> length (completed_futures post packages order) = length packages
    \<and> (\<forall>k. count_list (map fst (completed_futures post packages order)) k =
             count_list (map fst packages) k)
    \<and> (distinct (map fst packages) \<longrightarrow>
         (\<forall>p \<in> set packages.
            count_list (map fst (completed_futures post packages order)) (fst p) = 1
            \<and> fetch_all_vulnerabilities post packages order (fst p) =
                Some (query_osv post (fst p) (snd p))))"
proof -
  let ?g = "\<lambda>p. (fst p, query_osv post (fst p) (snd p))"
  let ?cf = "completed_futures post packages order"
  have perm: "mset ?cf = mset (map ?g packages)"
    using assms by (rule completed_futures_perm)
  have keys: "mset (map fst ?cf) = mset (map fst packages)"
  proof -
    have "mset (map fst ?cf) = image_mset fst (mset ?cf)" by simp
    also have "\<dots> = image_mset fst (mset (map ?g packages))" using perm by simp
    also have "\<dots> = mset (map fst packages)" by (simp add: multiset.map_comp comp_def)
    finally show ?thesis .
  qed
  have sets: "set ?cf = ?g ` set packages"
    using perm by (metis set_mset_mset set_map)
  have 1: "dom (fetch_all_vulnerabilities post packages order) = fst ` set packages"
    unfolding fetch_all_vulnerabilities_def dom_fold_store sets by (simp add: image_image)
  have 2: "length ?cf = length packages"
    using perm by (metis mset_eq_length length_map)
  have 3: "count_list (map fst ?cf) k = count_list (map fst packages) k" for k
    using keys by (rule count_list_perm)
  have 4: "count_list (map fst ?cf) (fst p) = 1
      \<and> fetch_all_vulnerabilities post packages order (fst p) = Some (query_osv post (fst p) (snd p))"
    if d: "distinct (map fst packages)" and p: "p \<in> set packages" for p
  proof -
    have "count_list (map fst packages) (fst p) = 1"
      using d p by (intro count_list_distinct) auto
    then have a: "count_list (map fst ?cf) (fst p) = 1" using 3 by simp
    have "distinct (map fst ?cf)"
      using keys d by (metis mset_eq_imp_distinct_iff)
    moreover have "(fst p, query_osv post (fst p) (snd p)) \<in> set ?cf"
      using sets p by auto
    ultimately have "fold store_result ?cf Map.empty (fst p) = Some (query_osv post (fst p) (snd p))"
      by (rule fold_store_distinct)
    then show ?thesis using a by (simp add: fetch_all_vulnerabilities_def)
  qed
  show ?thesis using 1 2 3 4 by blast
qed

text \<open>
  C8, as stated, fails on a batch that declares a name twice (the manifest \<open>flask==1.0\<close>,
  \<open>flask==2.0\<close>): the key \<open>flask\<close> is assigned twice.
\<close>

theorem key_written_twice_counterexample:
  "completion_order 2 [0, 1]
   \<and> count_list (map fst (completed_futures osv_unreachable
         [(ustr ''flask'', Some (ustr ''1.0'')), (ustr ''flask'', Some (ustr ''2.0''))] [0, 1]))
       (ustr ''flask'') = 2"
  by (simp add: completion_order_def upt_rec completed_futures_def)


theorem fetch_all_vulnerabilities_complete_witness:
  "dom (fetch_all_vulnerabilities osv_unreachable
          [(ustr ''flask'', None), (ustr ''numpy'', Some (ustr ''1.0''))] [1, 0])
     = {ustr ''flask'', ustr ''numpy''}
   \<and> fetch_all_vulnerabilities osv_unreachable
          [(ustr ''flask'', None), (ustr ''numpy'', Some (ustr ''1.0''))] [1, 0] (ustr ''numpy'')
       = Some (JArr [])"
proof -
  let ?ps = "[(ustr ''flask'', None), (ustr ''numpy'', Some (ustr ''1.0''))]"
  have o: "completion_order (length ?ps) [1, 0]"
    by (simp add: completion_order_def upt_rec)
  have d: "distinct (map fst ?ps)" by (simp add: ustr_def)
  have q: "query_osv osv_unreachable (ustr ''numpy'') (Some (ustr ''1.0'')) = JArr []"
    by (simp add: query_osv_unreachable vuln_list_def)
  note t = fetch_all_vulnerabilities_complete [OF o, of osv_unreachable]
  from t have a: "dom (fetch_all_vulnerabilities osv_unreachable ?ps [1, 0]) = fst ` set ?ps"
    by (rule conjunct1)
  from t have "distinct (map fst ?ps) \<longrightarrow>
         (\<forall>p \<in> set ?ps.
            count_list (map fst (completed_futures osv_unreachable ?ps [1, 0])) (fst p) = 1
            \<and> fetch_all_vulnerabilities osv_unreachable ?ps [1, 0] (fst p) =
                Some (query_osv osv_unreachable (fst p) (snd p)))"
    by (elim conjE)
  then have "\<forall>p \<in> set ?ps.
            count_list (map fst (completed_futures osv_unreachable ?ps [1, 0])) (fst p) = 1
            \<and> fetch_all_vulnerabilities osv_unreachable ?ps [1, 0] (fst p) =
                Some (query_osv osv_unreachable (fst p) (snd p))"
    using d by (rule mp)
  then have b: "fetch_all_vulnerabilities osv_unreachable ?ps [1, 0] (ustr ''numpy'') = Some (JArr [])"
    using q by simp
  show ?thesis using a b by simp
qed

section \<open>Failure of the vulnerability lookup\<close>

lemma query_osv_on_failure:
  "osv_failure (post OSV_API_URL (osv_payload package version)) \<Longrightarrow>
   query_osv post package version = JArr []"
  by (auto simp add: osv_failure_def query_osv_def query_osv_try_def py_get_def
      split: http_result.splits option.splits json.splits)

lemma query_osv_no_vulns:
  "post OSV_API_URL (osv_payload package version) = Response 200 (Some (JObj d)) \<Longrightarrow>
   map_of d (ustr ''vulns'') = None \<Longrightarrow> query_osv post package version = JArr []"
  by (simp add: query_osv_def query_osv_try_def py_get_def)

lemma query_osv_caught:
  "query_osv_try post package version = Inl e \<Longrightarrow> query_osv post package version = JArr []"
  by (simp add: query_osv_def)

lemma empty_list_scores:
  "calculate_trust_score repr (JArr []) similarity is_new =
     Inr (100 - (if similarity \<ge> 90 then 50 else 0) - (if is_new then 10 else 0))"
  "score_breakdown repr (JArr []) similarity is_new =
     Inr (if \<not> similarity \<ge> 90 \<and> \<not> is_new then [no_risk]
          else (if similarity \<ge> 90 then [reason_typo] else []) @ (if is_new then [reason_new] else []))"
  "py_len (JArr []) = Inr 0"
  by (simp_all add: calculate_trust_score_def score_breakdown_def critical_found_def py_iter_def
      py_len_def Let_def)





lemma row_of_empty_list:
  assumes m: "row_matches repr ratio lower age_of vuln_data p x"
    and v: "(case vuln_data (fst p) of None \<Rightarrow> JArr [] | Some v \<Rightarrow> v) = JArr []"
  shows "row_vulnerabilities x = 0
     \<and> row_trust_score x =
         100 - (if row_similarity x \<ge> 90 then 50 else 0)
             - (if (case row_age x of None \<Rightarrow> False | Some a \<Rightarrow> a < 30) then 10 else 0)
     \<and> row_explanation x = py_join (ustr ''<br>'')
         (if \<not> row_similarity x \<ge> 90
             \<and> \<not> (case row_age x of None \<Rightarrow> False | Some a \<Rightarrow> a < 30)
          then [no_risk]
          else (if row_similarity x \<ge> 90 then [reason_typo] else [])
               @ (if (case row_age x of None \<Rightarrow> False | Some a \<Rightarrow> a < 30)
                  then [reason_new] else []))"
proof -
  define new where "new = (case row_age x of None \<Rightarrow> False | Some a \<Rightarrow> a < 30)"
  have age: "row_age x = age_of (fst p)"
    using m by (simp add: row_matches_def Let_def)
  have new': "(case age_of (fst p) of None \<Rightarrow> False | Some a \<Rightarrow> a < 30) = new"
    by (simp add: new_def age)
  have n: "py_len (JArr []) = Inr (row_vulnerabilities x)"
    using m by (simp add: row_matches_def Let_def v)
  have sc: "calculate_trust_score repr (JArr []) (row_similarity x) new = Inr (row_trust_score x)"
    using m by (simp add: row_matches_def Let_def v new')
  have "\<exists>reasons. score_breakdown repr (JArr []) (row_similarity x) new = Inr reasons
      \<and> row_explanation x = py_join (ustr ''<br>'') reasons"
    using m by (simp add: row_matches_def Let_def v new')
  then obtain reasons where
    b: "score_breakdown repr (JArr []) (row_similarity x) new = Inr reasons"
    and ex: "row_explanation x = py_join (ustr ''<br>'') reasons"
    by blast
  have 1: "row_vulnerabilities x = 0"
    using n by (simp add: empty_list_scores(3))
  have 2: "row_trust_score x =
      100 - (if row_similarity x \<ge> 90 then 50 else 0) - (if new then 10 else 0)"
    using sc by (simp add: empty_list_scores(1))
  have 3: "reasons = (if \<not> row_similarity x \<ge> 90 \<and> \<not> new then [no_risk]
        else (if row_similarity x \<ge> 90 then [reason_typo] else [])
             @ (if new then [reason_new] else []))"
    using b by (simp add: empty_list_scores(2))
  show ?thesis
    unfolding new_def [symmetric] 3 [symmetric] using 1 2 ex by (intro conjI)
qed


lemma fetched_value_empty:
  assumes q: "\<And>package version. query_osv post package version = JArr []"
  shows "(case fetch_all_vulnerabilities post packages order pkg of
            None \<Rightarrow> JArr [] | Some v \<Rightarrow> v) = JArr []"
proof (cases "fetch_all_vulnerabilities post packages order pkg")
  case None
  then show ?thesis by simp
next
  case (Some v)
  obtain package version where "v = query_osv post package version"
    using fetch_all_values [OF Some] by blast
  then have "v = JArr []" by (simp only: q)
  then show ?thesis using Some by simp
qed

lemma list_all2_member:
  assumes "list_all2 P packages rows" "x \<in> set rows"
  shows "\<exists>p. P p x"
proof -
  obtain i where i: "i < length rows" "x = rows ! i"
    using assms(2) by (metis in_set_conv_nth)
  then have "i < length packages" using assms(1) by (simp add: list_all2_lengthD)
  then have "P (packages ! i) x"
    using list_all2_nthD [OF assms(1)] i(2) by simp
  then show ?thesis by blast
qed

lemma risk_records_all_failed:
  assumes "\<forall>url payload. osv_failure (osv_post w url payload)"
  shows "\<exists>rows. risk_records w c = Inr rows \<and> length rows = length (surviving_lines c)
     \<and> (\<forall>r \<in> set rows.
           row_vulnerabilities r = 0
           \<and> row_trust_score r =
               100 - (if row_similarity r \<ge> 90 then 50 else 0)
                   - (if (case row_age r of None \<Rightarrow> False | Some a \<Rightarrow> a < 30) then 10 else 0)
           \<and> row_explanation r = py_join (ustr ''<br>'')
               (if \<not> row_similarity r \<ge> 90
                   \<and> \<not> (case row_age r of None \<Rightarrow> False | Some a \<Rightarrow> a < 30)
                then [no_risk]
                else (if row_similarity r \<ge> 90 then [reason_typo] else [])
                     @ (if (case row_age r of None \<Rightarrow> False | Some a \<Rightarrow> a < 30)
                        then [reason_new] else [])))"
proof -
  have q: "query_osv (osv_post w) package version = JArr []" for package version
    by (rule query_osv_on_failure) (rule assms [rule_format])
  have e: "JArr [] = vuln_list []" by (simp add: vuln_list_def)
  have h: "\<forall>package version. \<exists>ds. query_osv (osv_post w) package version = vuln_list ds"
    unfolding q e by blast
  obtain packages rows where r: "parse_requirements c = Inr packages"
    "map Inr packages = map (try_separators SEPARATORS) (surviving_lines c)"
    "risk_records w c = Inr rows"
    "list_all2 (row_matches (py_repr w) (fuzz_ratio w) (str_lower w)
           (fetch_pypi_age (pypi_get w) (iso_parser w) (utc_now w))
           (fetch_all_vulnerabilities (osv_post w) packages (futures_order w (length packages))))
         packages rows"
    using risk_records_rows [OF h, of c] by blast
  have "length packages = length (surviving_lines c)"
    using r(2) by (metis length_map)
  moreover have "length rows = length packages"
    using r(4) by (simp add: list_all2_lengthD)
  ultimately have len: "length rows = length (surviving_lines c)" by simp
  have rows_ok: "\<forall>x \<in> set rows.
           row_vulnerabilities x = 0
           \<and> row_trust_score x =
               100 - (if row_similarity x \<ge> 90 then 50 else 0)
                   - (if (case row_age x of None \<Rightarrow> False | Some a \<Rightarrow> a < 30) then 10 else 0)
           \<and> row_explanation x = py_join (ustr ''<br>'')
               (if \<not> row_similarity x \<ge> 90
                   \<and> \<not> (case row_age x of None \<Rightarrow> False | Some a \<Rightarrow> a < 30)
                then [no_risk]
                else (if row_similarity x \<ge> 90 then [reason_typo] else [])
                     @ (if (case row_age x of None \<Rightarrow> False | Some a \<Rightarrow> a < 30)
                        then [reason_new] else []))"
  proof (rule ballI)
    fix x
    assume xin: "x \<in> set rows"
    obtain p where "row_matches (py_repr w) (fuzz_ratio w) (str_lower w)
           (fetch_pypi_age (pypi_get w) (iso_parser w) (utc_now w))
           (fetch_all_vulnerabilities (osv_post w) packages (futures_order w (length packages)))
           p x"
      using list_all2_member [OF r(4) xin] by blast
    then show "row_vulnerabilities x = 0
           \<and> row_trust_score x =
               100 - (if row_similarity x \<ge> 90 then 50 else 0)
                   - (if (case row_age x of None \<Rightarrow> False | Some a \<Rightarrow> a < 30) then 10 else 0)
           \<and> row_explanation x = py_join (ustr ''<br>'')
               (if \<not> row_similarity x \<ge> 90
                   \<and> \<not> (case row_age x of None \<Rightarrow> False | Some a \<Rightarrow> a < 30)
                then [no_risk]
                else (if row_similarity x \<ge> 90 then [reason_typo] else [])
                     @ (if (case row_age x of None \<Rightarrow> False | Some a \<Rightarrow> a < 30)
                        then [reason_new] else []))"
      by (rule row_of_empty_list) (rule fetched_value_empty, rule q)
  qed
  show ?thesis using r(3) len rows_ok by (intro exI [of _ rows] conjI)
qed


text \<open>
  C4, as stated, fails on an answer with status 200 and the body \<open>{"vulns": null}\<close>: the
  lookup returns \<open>None\<close>, not the empty list, and the run on the manifest \<open>requests\<close> then
  raises \<open>TypeError\<close> when the score iterates over it.
\<close>

theorem null_vulns_counterexample:
  "query_osv osv_null_vulns (ustr ''requests'') None = JNull
   \<and> risk_records (sample_collaborators osv_null_vulns) (ustr ''requests'') = Inl TypeError"
proof -
  have q: "query_osv osv_null_vulns package version = JNull" for package version
    by (simp add: query_osv_def query_osv_try_def osv_null_vulns_def py_get_def)
  have p: "parse_requirements (ustr ''requests'') = Inr [(ustr ''requests'', None)]"
    by (simp add: parse_requirements_def splitlines_def ustr_def is_linebreak_def strip_def
        is_space_def startswith_def SEPARATORS_def py_split1_def)
  have f: "fetch_all_vulnerabilities osv_null_vulns [(ustr ''requests'', None)] [0] (ustr ''requests'')
      = Some JNull"
    by (simp add: fetch_all_vulnerabilities_def completed_futures_def store_result_def q)
  have c: "calculate_trust_score repr JNull similarity is_new = Inl TypeError"
    for repr similarity is_new
    by (simp add: calculate_trust_score_def critical_found_def py_iter_def)
  have "risk_records (sample_collaborators osv_null_vulns) (ustr ''requests'') = Inl TypeError"
    by (simp add: risk_records_def sample_collaborators_def p Let_def build_rows_step f c
        del: build_rows.simps)
  then show ?thesis using q by simp
qed

text \<open>
  C4, amended. \<open>query_osv\<close> returns the empty list whenever the lookup fails, that is when
  the request raises, the status is not 200, the body is not JSON or the JSON is not an
  object, and more generally whenever anything raises inside its \<open>try\<close>; it returns the empty
  list as well for an object without \<open>vulns\<close>. If the vulnerability database fails in one of
  these ways on every request, the run raises nothing and yields one record per surviving
  line, each with no vulnerability, a trust score without the deduction for critical
  vulnerabilities, and an explanation without its line.
\<close>

theorem query_osv_fail_open:
  "(osv_failure (post OSV_API_URL (osv_payload package version)) \<longrightarrow>
      query_osv post package version = JArr [])
   \<and> (\<forall>e. query_osv_try post package version = Inl e \<longrightarrow>
          query_osv post package version = JArr [])
   \<and> (\<forall>d. post OSV_API_URL (osv_payload package version) = Response 200 (Some (JObj d))
          \<and> map_of d (ustr ''vulns'') = None \<longrightarrow>
          query_osv post package version = JArr [])
   \<and> ((\<forall>url payload. osv_failure (osv_post w url payload)) \<longrightarrow>
        (\<exists>rows. risk_records w c = Inr rows \<and> length rows = length (surviving_lines c)
           \<and> (\<forall>r \<in> set rows.
                 row_vulnerabilities r = 0
                 \<and> row_trust_score r =
                     100 - (if row_similarity r \<ge> 90 then 50 else 0)
                         - (if (case row_age r of None \<Rightarrow> False | Some a \<Rightarrow> a < 30)
                            then 10 else 0)
                 \<and> row_explanation r = py_join (ustr ''<br>'')
                     (if \<not> row_similarity r \<ge> 90
                         \<and> \<not> (case row_age r of None \<Rightarrow> False | Some a \<Rightarrow> a < 30)
                      then [no_risk]
                      else (if row_similarity r \<ge> 90 then [reason_typo] else [])
                           @ (if (case row_age r of None \<Rightarrow> False | Some a \<Rightarrow> a < 30)
                              then [reason_new] else [])))))"
proof (intro conjI allI impI)
  assume "osv_failure (post OSV_API_URL (osv_payload package version))"
  then show "query_osv post package version = JArr []" by (rule query_osv_on_failure)
next
  fix e
  assume "query_osv_try post package version = Inl e"
  then show "query_osv post package version = JArr []" by (rule query_osv_caught)
next
  fix d
  assume "post OSV_API_URL (osv_payload package version) = Response 200 (Some (JObj d))
          \<and> map_of d (ustr ''vulns'') = None"
  then show "query_osv post package version = JArr []"
    using query_osv_no_vulns by blast
next
  assume "\<forall>url payload. osv_failure (osv_post w url payload)"
  then show "\<exists>rows. risk_records w c = Inr rows \<and> length rows = length (surviving_lines c)
           \<and> (\<forall>r \<in> set rows.
                 row_vulnerabilities r = 0
                 \<and> row_trust_score r =
                     100 - (if row_similarity r \<ge> 90 then 50 else 0)
                         - (if (case row_age r of None \<Rightarrow> False | Some a \<Rightarrow> a < 30)
                            then 10 else 0)
                 \<and> row_explanation r = py_join (ustr ''<br>'')
                     (if \<not> row_similarity r \<ge> 90
                         \<and> \<not> (case row_age r of None \<Rightarrow> False | Some a \<Rightarrow> a < 30)
                      then [no_risk]
                      else (if row_similarity r \<ge> 90 then [reason_typo] else [])
                           @ (if (case row_age r of None \<Rightarrow> False | Some a \<Rightarrow> a < 30)
                              then [reason_new] else [])))"
    by (rule risk_records_all_failed)
qed

theorem query_osv_fail_open_witness:
  "query_osv osv_unreachable (ustr ''flask'') None = JArr []
   \<and> (\<exists>rows. risk_records (sample_collaborators osv_unreachable)
                (ustr ''flask'' @ [10] @ ustr ''# comment'' @ [10] @ ustr ''numpy>=1.0'') = Inr rows
          \<and> length rows = 2
          \<and> list_all (\<lambda>r. row_vulnerabilities r = 0) rows)"
proof -
  let ?c = "ustr ''flask'' @ [10] @ ustr ''# comment'' @ [10] @ ustr ''numpy>=1.0''"
  let ?w = "sample_collaborators osv_unreachable"
  have f: "osv_failure (osv_unreachable url payload)" for url payload
    by (simp add: osv_failure_def osv_unreachable_def)
  have a: "query_osv osv_unreachable (ustr ''flask'') None = JArr []"
    using query_osv_fail_open [of osv_unreachable "ustr ''flask''" None] f by blast
  have h: "\<forall>url payload. osv_failure (osv_post ?w url payload)"
    using f by (simp add: sample_collaborators_def)
  have s: "length (surviving_lines ?c) = 2"
    by (simp add: surviving_lines_def splitlines_def ustr_def is_linebreak_def strip_def
        is_space_def startswith_def)
  obtain rows where r: "risk_records ?w ?c = Inr rows" "length rows = length (surviving_lines ?c)"
    "\<forall>r \<in> set rows. row_vulnerabilities r = 0"
    using query_osv_fail_open [of osv_unreachable "ustr ''flask''" None ?w ?c] h by blast
  have "list_all (\<lambda>r. row_vulnerabilities r = 0) rows"
    using r(3) by (simp add: list_all_iff)
  moreover have "length rows = 2" using r(2) s by simp
  ultimately have "\<exists>rows. risk_records ?w ?c = Inr rows \<and> length rows = 2
      \<and> list_all (\<lambda>r. row_vulnerabilities r = 0) rows"
    using r(1) by (intro exI [of _ rows] conjI)
  then show ?thesis using a by (intro conjI)
qed

end
